theory Spec2Isabelle
  imports Main "HOL-Library.Product_Lexorder" "HOL-Library.Char_ord" "HOL-Library.List_Lexorder"
begin

section \<open>JavaScript values\<close>

text \<open>
  The values the modelled functions receive. Strings are lists of code units below 256.
  Numbers are the integers and NaN (\<open>None\<close>): the modelled paths compute with calendar
  fields and millisecond time values only, all far below \<open>2 ^ 53\<close>, where double
  arithmetic on integers is exact. A \<open>Date\<close> object is its time value (milliseconds since
  the epoch, \<open>None\<close> for an Invalid Date). \<open>JTimestamp\<close> is the Firestore SDK's
  \<open>Timestamp\<close>, kept at millisecond granularity (what \<open>Timestamp.fromDate\<close> produces).
  A function value is modelled by what a call of it does: it throws or it returns a
  value. A plain object (\<open>JObj\<close>) is the list of its own enumerable data properties; it
  inherits from \<open>Object.prototype\<close>. \<open>JNullProtoObj\<close> is an object created with
  \<open>Object.create(null)\<close>: the same list of properties and no inherited method.
  Two further shapes are the inputs on which the statements of formatDateForDisplay that
  stand outside its \<open>try\<close> blocks can raise: \<open>JToDateGetter\<close> is an object whose own
  property \<open>toDate\<close> is an accessor (the getter throws or returns a value), and
  \<open>JDatePatched\<close> is a Date object whose own property \<open>getTime\<close> has been
  overwritten with \<open>null\<close>. Other accessor properties and proxies are not modelled.
\<close>

datatype 'a outcome = Throws | Returns 'a

datatype jsval =
    JUndefined
  | JNull
  | JBool bool
  | JNum "int option"
  | JStr string
  | JDate "int option"
  | JTimestamp int
  | JFun "jsval outcome"
  | JObj "(string \<times> jsval) list"
  | JNullProtoObj "(string \<times> jsval) list"
  | JToDateGetter "jsval outcome"
  | JDatePatched "int option"

datatype error =
    TypeError string
  | FirestoreError string
  | OtherError string

fun typeof :: "jsval \<Rightarrow> string" where
  "typeof JUndefined = ''undefined''"
| "typeof JNull = ''object''"
| "typeof (JBool b) = ''boolean''"
| "typeof (JNum n) = ''number''"
| "typeof (JStr s) = ''string''"
| "typeof (JDate t) = ''object''"
| "typeof (JTimestamp ms) = ''object''"
| "typeof (JFun f) = ''function''"
| "typeof (JObj ps) = ''object''"
| "typeof (JNullProtoObj ps) = ''object''"
| "typeof (JToDateGetter g) = ''object''"
| "typeof (JDatePatched t) = ''object''"

text \<open>Truthiness, as \<open>!v\<close>, \<open>v && w\<close> and \<open>if (v)\<close> read it.\<close>

fun truthy :: "jsval \<Rightarrow> bool" where
  "truthy JUndefined = False"
| "truthy JNull = False"
| "truthy (JBool b) = b"
| "truthy (JNum None) = False"
| "truthy (JNum (Some n)) = (n \<noteq> 0)"
| "truthy (JStr s) = (s \<noteq> [])"
| "truthy (JDate t) = True"
| "truthy (JTimestamp ms) = True"
| "truthy (JFun f) = True"
| "truthy (JObj ps) = True"
| "truthy (JNullProtoObj ps) = True"
| "truthy (JToDateGetter g) = True"
| "truthy (JDatePatched t) = True"

text \<open>
  Reading a property \<open>v.name\<close>. On \<open>null\<close> and \<open>undefined\<close> the read raises a TypeError;
  reading an accessor runs its getter, which may throw.
  A Timestamp carries the SDK's \<open>toDate\<close> method, which returns \<open>new Date(ms)\<close>; the
  time value is clipped to the range of Date as the constructor does. The calls of the
  methods \<open>hasOwnProperty\<close> and \<open>getTime\<close> are the functions \<open>call_hasOwnProperty\<close> and
  \<open>call_getTime\<close> below; \<open>trim\<close> is called on strings only.
\<close>

definition TimeClip :: "int \<Rightarrow> int option" where
  "TimeClip t = (if \<bar>t\<bar> > 8640000000000000 then None else Some t)"

fun get_prop :: "jsval \<Rightarrow> string \<Rightarrow> error + jsval" where
  "get_prop JUndefined name = Inl (TypeError ''Cannot read properties of undefined'')"
| "get_prop JNull name = Inl (TypeError ''Cannot read properties of null'')"
| "get_prop (JObj ps) name = Inr (case map_of ps name of None \<Rightarrow> JUndefined | Some v \<Rightarrow> v)"
| "get_prop (JNullProtoObj ps) name = Inr (case map_of ps name of None \<Rightarrow> JUndefined | Some v \<Rightarrow> v)"
| "get_prop (JToDateGetter g) name =
     (if name = ''toDate''
      then (case g of Throws \<Rightarrow> Inl (OtherError ''thrown by the getter'') | Returns v \<Rightarrow> Inr v)
      else Inr JUndefined)"
| "get_prop (JDatePatched t) name = Inr (if name = ''getTime'' then JNull else JUndefined)"
| "get_prop (JTimestamp ms) name =
     Inr (if name = ''toDate'' then JFun (Returns (JDate (TimeClip ms))) else JUndefined)"
| "get_prop v name = Inr JUndefined"

text \<open>\<open>Object.keys(v)\<close> for a value that is not null or undefined.\<close>

fun own_keys :: "jsval \<Rightarrow> string list" where
  "own_keys (JObj ps) = remdups (map fst ps)"
| "own_keys (JNullProtoObj ps) = remdups (map fst ps)"
| "own_keys (JTimestamp ms) = [''seconds'', ''nanoseconds'']"
| "own_keys (JToDateGetter g) = [''toDate'']"
| "own_keys (JDatePatched t) = [''getTime'']"
| "own_keys v = []"

text \<open>
  \<open>v.hasOwnProperty(name)\<close>, a call of whatever the object has under the name
  \<open>hasOwnProperty\<close>. On \<open>null\<close> and \<open>undefined\<close> the read of the property raises a
  TypeError. An own property of that name shadows the method of
  \<open>Object.prototype\<close>: when it is a function, that function runs (its result is read as
  a condition), otherwise the call raises a TypeError. An object without prototype has
  no such method, and the call raises a TypeError. In every other case the inherited
  method answers whether \<open>name\<close> is an own property.
\<close>

fun own_property :: "jsval \<Rightarrow> string \<Rightarrow> jsval option" where
  "own_property (JObj ps) name = map_of ps name"
| "own_property (JNullProtoObj ps) name = map_of ps name"
| "own_property v name = None"

fun has_Object_prototype :: "jsval \<Rightarrow> bool" where
  "has_Object_prototype (JNullProtoObj ps) = False"
| "has_Object_prototype v = True"

definition call_hasOwnProperty :: "jsval \<Rightarrow> string \<Rightarrow> error + bool" where
  "call_hasOwnProperty v name =
     (case get_prop v ''hasOwnProperty'' of
        Inl e \<Rightarrow> Inl e
      | Inr read \<Rightarrow>
          (case own_property v ''hasOwnProperty'' of
             Some (JFun Throws) \<Rightarrow> Inl (OtherError ''thrown by the callee'')
           | Some (JFun (Returns r)) \<Rightarrow> Inr (truthy r)
           | Some other \<Rightarrow> Inl (TypeError ''hasOwnProperty is not a function'')
           | None \<Rightarrow>
               if has_Object_prototype v then Inr (name \<in> set (own_keys v))
               else Inl (TypeError ''hasOwnProperty is not a function'')))"

fun instanceof_Date :: "jsval \<Rightarrow> bool" where
  "instanceof_Date (JDate t) = True"
| "instanceof_Date (JDatePatched t) = True"
| "instanceof_Date v = False"

text \<open>
  \<open>d.getTime()\<close> on a Date object: its time value (\<open>None\<close> is NaN); a TypeError when
  \<open>getTime\<close> is not a function.
\<close>

fun call_getTime :: "jsval \<Rightarrow> error + int option" where
  "call_getTime (JDate t) = Inr t"
| "call_getTime v = Inl (TypeError ''getTime is not a function'')"

fun instanceof_Timestamp :: "jsval \<Rightarrow> bool" where
  "instanceof_Timestamp (JTimestamp ms) = True"
| "instanceof_Timestamp v = False"

text \<open>\<open>f()\<close>: calling something that is not a function raises a TypeError.\<close>

fun call0 :: "jsval \<Rightarrow> error + jsval" where
  "call0 (JFun Throws) = Inl (OtherError ''thrown by the callee'')"
| "call0 (JFun (Returns v)) = Inr v"
| "call0 v = Inl (TypeError ''not a function'')"

section \<open>Strings and numbers\<close>

text \<open>White space and line terminators that \<open>String.prototype.trim\<close> removes, below 256.\<close>

definition is_space :: "char \<Rightarrow> bool" where
  "is_space c = (c \<in> set [CHR 0x09, CHR 0x0A, CHR 0x0B, CHR 0x0C, CHR 0x0D, CHR 0x20, CHR 0xA0])"

definition trim :: "string \<Rightarrow> string" where
  "trim s = rev (dropWhile is_space (rev (dropWhile is_space s)))"

definition is_digit :: "char \<Rightarrow> bool" where
  "is_digit c = (48 \<le> (of_char c :: nat) \<and> (of_char c :: nat) \<le> 57)"

definition digit_val :: "char \<Rightarrow> nat" where
  "digit_val c = of_char c - 48"

definition digit_char :: "nat \<Rightarrow> char" where
  "digit_char n = char_of (48 + n)"

text \<open>The decimal digits of a natural number, most significant first.\<close>

fun decimal :: "nat \<Rightarrow> string" where
  "decimal n = (if n < 10 then [digit_char n] else decimal (n div 10) @ [digit_char (n mod 10)])"

declare decimal.simps [simp del]

text \<open>\<open>Number.prototype.toString()\<close> on an integer (below \<open>10 ^ 21\<close> in magnitude).\<close>

definition Number_toString :: "int \<Rightarrow> string" where
  "Number_toString n = (if n < 0 then CHR ''-'' # decimal (nat (- n)) else decimal (nat n))"

definition padStart :: "nat \<Rightarrow> char \<Rightarrow> string \<Rightarrow> string" where
  "padStart n c s = replicate (n - length s) c @ s"

definition decimal_value :: "string \<Rightarrow> nat" where
  "decimal_value ds = foldl (\<lambda>acc c. acc * 10 + digit_val c) 0 ds"

text \<open>
  The numbers that \<open>Number(s)\<close> gives for a string: NaN, the two infinities
  (\<open>JsInfinity True\<close> is the negative one), and the finite values, \<open>JsDec m e\<close> for
  \<open>m\<close> times ten to the power \<open>e\<close>. The value of a literal is kept exact: the rounding
  to a double is not modelled, which leaves literals of up to 15 significant digits as
  they are.
\<close>

datatype jsnum = JsNaN | JsInfinity bool | JsDec int int

fun negate :: "jsnum \<Rightarrow> jsnum" where
  "negate JsNaN = JsNaN"
| "negate (JsInfinity neg) = JsInfinity (\<not> neg)"
| "negate (JsDec m e) = JsDec (- m) e"

text \<open>\<open>x - 1\<close>.\<close>

fun number_minus_1 :: "jsnum \<Rightarrow> jsnum" where
  "number_minus_1 JsNaN = JsNaN"
| "number_minus_1 (JsInfinity neg) = JsInfinity neg"
| "number_minus_1 (JsDec m e) =
     (if 0 \<le> e then JsDec (m * 10 ^ nat e - 1) 0 else JsDec (m - 10 ^ nat (- e)) e)"

text \<open>
  ToIntegerOrInfinity on a finite number: the fraction is cut off towards zero. NaN and
  the infinities have no integer part here; every use below turns them into an Invalid
  Date.
\<close>

fun integer_part :: "jsnum \<Rightarrow> int option" where
  "integer_part JsNaN = None"
| "integer_part (JsInfinity neg) = None"
| "integer_part (JsDec m e) =
     Some (if 0 \<le> e then m * 10 ^ nat e
           else if 0 \<le> m then m div 10 ^ nat (- e)
           else - ((- m) div 10 ^ nat (- e)))"

text \<open>
  The grammar of StringNumericLiteral (ECMA-262, StringToNumber). \<open>radix_value\<close> reads
  the digits of a binary, octal or hexadecimal literal, \<open>parse_exponent\<close> an optional
  exponent part up to the end of the string, \<open>unsigned_decimal\<close> an unsigned decimal
  literal: \<open>Infinity\<close>, or digits with an optional fraction and exponent.
\<close>

definition radix_digit :: "nat \<Rightarrow> char \<Rightarrow> nat option" where
  "radix_digit r c =
     (let n = (of_char c :: nat);
          v = (if 48 \<le> n \<and> n \<le> 57 then n - 48
               else if 97 \<le> n \<and> n \<le> 102 then n - 87
               else if 65 \<le> n \<and> n \<le> 70 then n - 55
               else r)
      in if v < r then Some v else None)"

definition radix_value :: "nat \<Rightarrow> string \<Rightarrow> nat option" where
  "radix_value r ds =
     (if ds \<noteq> [] \<and> list_all (\<lambda>c. radix_digit r c \<noteq> None) ds
      then Some (foldl (\<lambda>acc c. acc * r + (case radix_digit r c of None \<Rightarrow> 0 | Some v \<Rightarrow> v)) 0 ds)
      else None)"

definition non_decimal_literal :: "string \<Rightarrow> nat option" where
  "non_decimal_literal t =
     (case t of
        c0 # c1 # ds \<Rightarrow>
          if c0 \<noteq> CHR ''0'' then None
          else if c1 = CHR ''x'' \<or> c1 = CHR ''X'' then radix_value 16 ds
          else if c1 = CHR ''o'' \<or> c1 = CHR ''O'' then radix_value 8 ds
          else if c1 = CHR ''b'' \<or> c1 = CHR ''B'' then radix_value 2 ds
          else None
      | _ \<Rightarrow> None)"

definition digits_value :: "string \<Rightarrow> int option" where
  "digits_value ds = (if ds \<noteq> [] \<and> list_all is_digit ds then Some (int (decimal_value ds)) else None)"

definition parse_exponent :: "string \<Rightarrow> int option" where
  "parse_exponent r =
     (case r of
        [] \<Rightarrow> Some 0
      | c # ds \<Rightarrow>
          if c = CHR ''e'' \<or> c = CHR ''E'' then
            (case ds of
               [] \<Rightarrow> None
             | d # ds' \<Rightarrow>
                 if d = CHR ''+'' then digits_value ds'
                 else if d = CHR ''-'' then map_option uminus (digits_value ds')
                 else digits_value ds)
          else None)"

definition unsigned_decimal :: "string \<Rightarrow> jsnum" where
  "unsigned_decimal t =
     (if t = ''Infinity'' then JsInfinity False
      else
        (let ip = takeWhile is_digit t; r1 = dropWhile is_digit t in
         case r1 of
           [] \<Rightarrow> if ip = [] then JsNaN else JsDec (int (decimal_value ip)) 0
         | c # r \<Rightarrow>
             if c = CHR ''.'' then
               (let fp = takeWhile is_digit r; r2 = dropWhile is_digit r in
                if ip = [] \<and> fp = [] then JsNaN
                else (case parse_exponent r2 of
                        None \<Rightarrow> JsNaN
                      | Some ex \<Rightarrow> JsDec (int (decimal_value (ip @ fp))) (ex - int (length fp))))
             else if ip = [] then JsNaN
             else (case parse_exponent r1 of
                     None \<Rightarrow> JsNaN
                   | Some ex \<Rightarrow> JsDec (int (decimal_value ip)) ex)))"

text \<open>
  \<open>Number(s)\<close> on a string: white space is trimmed; the empty string is 0; a binary,
  octal or hexadecimal literal is its value; otherwise the string is read as a decimal
  literal with an optional sign; everything else is NaN.
\<close>

definition StringToNumber :: "string \<Rightarrow> jsnum" where
  "StringToNumber s =
     (let t = trim s in
      if t = [] then JsDec 0 0
      else
        (case non_decimal_literal t of
           Some n \<Rightarrow> JsDec (int n) 0
         | None \<Rightarrow>
             if hd t = CHR ''-'' then negate (unsigned_decimal (tl t))
             else if hd t = CHR ''+'' then unsigned_decimal (tl t)
             else unsigned_decimal t))"

text \<open>\<open>s.split(sep)\<close> for a separator of one character.\<close>

fun split_str :: "char \<Rightarrow> string \<Rightarrow> string list" where
  "split_str sep [] = [[]]"
| "split_str sep (c # cs) =
     (if c = sep then [] # split_str sep cs
      else (case split_str sep cs of [] \<Rightarrow> [[c]] | p # ps \<Rightarrow> (c # p) # ps))"

text \<open>\<open>a[i]\<close> on an array of numbers: an index out of range reads \<open>undefined\<close>, which every
  arithmetic use below converts to NaN.\<close>

definition nth_num :: "jsnum list \<Rightarrow> nat \<Rightarrow> jsnum" where
  "nth_num xs i = (if i < length xs then xs ! i else JsNaN)"

section \<open>Dates: the ECMAScript time-value algorithms\<close>

text \<open>
  The abstract operations of ECMA-262 (Time Values and Time Range, Day Number, Year
  Number, Month Number, Date Number, MakeDay, MakeDate, TimeClip) on integer time
  values. The host's time zone is a parameter \<open>tza\<close>, the offset of local time from UTC
  in milliseconds, taken as constant (no daylight-saving transitions).
\<close>

definition msPerDay :: int where
  "msPerDay = 86400000"

definition Day :: "int \<Rightarrow> int" where
  "Day t = t div msPerDay"

definition DaysInYear :: "int \<Rightarrow> int" where
  "DaysInYear y =
     (if y mod 4 \<noteq> 0 then 365
      else if y mod 100 \<noteq> 0 then 366
      else if y mod 400 \<noteq> 0 then 365
      else 366)"

definition DayFromYear :: "int \<Rightarrow> int" where
  "DayFromYear y =
     365 * (y - 1970) + (y - 1969) div 4 - (y - 1901) div 100 + (y - 1601) div 400"

text \<open>
  ECMA-262 specifies YearFromTime(t) as the largest year \<open>y\<close> with TimeFromYear(y) \<open>\<le>\<close> t.
  It is computed from an estimate by the mean length of a Gregorian year, corrected by at
  most one year; lemma \<open>YearFromDay_spec\<close> below shows that this is the specified year.
\<close>

definition YearFromDay :: "int \<Rightarrow> int" where
  "YearFromDay d =
     (let y = (d * 400) div 146097 + 1970 in
      if d < DayFromYear y then y - 1
      else if DayFromYear (y + 1) \<le> d then y + 1
      else y)"

definition YearFromTime :: "int \<Rightarrow> int" where
  "YearFromTime t = YearFromDay (Day t)"

definition InLeapYear :: "int \<Rightarrow> int" where
  "InLeapYear t = (if DaysInYear (YearFromTime t) = 366 then 1 else 0)"

definition DayWithinYear :: "int \<Rightarrow> int" where
  "DayWithinYear t = Day t - DayFromYear (YearFromTime t)"

text \<open>The day within the year on which month \<open>m\<close> (0 to 11) starts; \<open>leap\<close> is 0 or 1.\<close>

definition MonthStart :: "int \<Rightarrow> int \<Rightarrow> int" where
  "MonthStart leap m =
     (if m = 0 then 0
      else if m = 1 then 31
      else if m = 2 then 59 + leap
      else if m = 3 then 90 + leap
      else if m = 4 then 120 + leap
      else if m = 5 then 151 + leap
      else if m = 6 then 181 + leap
      else if m = 7 then 212 + leap
      else if m = 8 then 243 + leap
      else if m = 9 then 273 + leap
      else if m = 10 then 304 + leap
      else 334 + leap)"

definition MonthFromTime :: "int \<Rightarrow> int" where
  "MonthFromTime t =
     (let d = DayWithinYear t; leap = InLeapYear t in
      if d < 31 then 0
      else if d < 59 + leap then 1
      else if d < 90 + leap then 2
      else if d < 120 + leap then 3
      else if d < 151 + leap then 4
      else if d < 181 + leap then 5
      else if d < 212 + leap then 6
      else if d < 243 + leap then 7
      else if d < 273 + leap then 8
      else if d < 304 + leap then 9
      else if d < 334 + leap then 10
      else 11)"

definition DateFromTime :: "int \<Rightarrow> int" where
  "DateFromTime t = DayWithinYear t - MonthStart (InLeapYear t) (MonthFromTime t) + 1"

definition LocalTime :: "int \<Rightarrow> int \<Rightarrow> int" where
  "LocalTime tza t = t + tza"

definition UTC :: "int \<Rightarrow> int \<Rightarrow> int" where
  "UTC tza t = t - tza"

text \<open>
  MakeDay(year, month, date): the day number of the first of month \<open>month mod 12\<close> in year
  \<open>year + month div 12\<close>, plus \<open>date - 1\<close>. Months and days out of range carry over into
  the neighbouring months and years; nothing is rejected.
\<close>

definition MakeDay :: "int \<Rightarrow> int \<Rightarrow> int \<Rightarrow> int" where
  "MakeDay year month date =
     (let ym = year + month div 12; mn = month mod 12 in
      DayFromYear ym + MonthStart (if DaysInYear ym = 366 then 1 else 0) mn + date - 1)"

definition MakeDate :: "int \<Rightarrow> int \<Rightarrow> int" where
  "MakeDate day time = day * msPerDay + time"

text \<open>
  \<open>new Date(year, month, date)\<close>: a NaN argument gives an Invalid Date; a year from 0 to
  99 means 1900 + year; the fields are read as local time, at midnight.
\<close>

definition new_Date :: "int \<Rightarrow> int option \<Rightarrow> int option \<Rightarrow> int option \<Rightarrow> int option" where
  "new_Date tza year month date =
     (case (year, month, date) of
        (Some y, Some m, Some dt) \<Rightarrow>
          (let yr = (if 0 \<le> y \<and> y \<le> 99 then 1900 + y else y)
           in TimeClip (UTC tza (MakeDate (MakeDay yr m dt) 0)))
      | _ \<Rightarrow> None)"

definition getFullYear :: "int \<Rightarrow> int \<Rightarrow> int" where
  "getFullYear tza t = YearFromTime (LocalTime tza t)"

definition getMonth :: "int \<Rightarrow> int \<Rightarrow> int" where
  "getMonth tza t = MonthFromTime (LocalTime tza t)"

definition getDate :: "int \<Rightarrow> int \<Rightarrow> int" where
  "getDate tza t = DateFromTime (LocalTime tza t)"

section \<open>formatDateForDisplay\<close>

text \<open>
  Step 6 of the function: the year as \<open>getFullYear()\<close> prints it, the month plus one and
  the day of the month padded to two digits.
\<close>

definition format_ymd :: "int \<Rightarrow> int \<Rightarrow> string" where
  "format_ymd tza t =
     (let year = getFullYear tza t;
          month = padStart 2 CHR ''0'' (Number_toString (getMonth tza t + 1));
          day = padStart 2 CHR ''0'' (Number_toString (getDate tza t))
      in Number_toString year @ ''-'' @ month @ ''-'' @ day)"

text \<open>
  The function returns a string or raises. Each \<open>try\<close>/\<open>catch\<close> of the source is a case
  distinction on the result of the guarded operation: the call \<open>dateInput.toDate()\<close> is
  guarded. The read of \<open>dateInput.toDate\<close> in the condition of step 2 and the call
  \<open>dateObject.getTime()\<close> of step 5 stand outside every \<open>try\<close>: what they raise, the
  function raises. \<open>resolve_dateObject\<close> is steps 2 to 4: the Date object found, or
  nothing when the function returns the empty string there.
\<close>

definition resolve_dateObject :: "jsval \<Rightarrow> jsval \<Rightarrow> jsval option" where
  "resolve_dateObject dateInput toDate =
     (if typeof toDate = ''function'' then
        (case call0 toDate of
           Inl e \<Rightarrow> None
         | Inr dateObject \<Rightarrow> if \<not> instanceof_Date dateObject then None else Some dateObject)
      else if instanceof_Date dateInput then Some dateInput
      else None)"

definition formatDateForDisplay :: "int \<Rightarrow> jsval \<Rightarrow> error + string" where
  "formatDateForDisplay tza dateInput =
     (if dateInput = JNull \<or> dateInput = JUndefined then Inr ''''
      else
        (case get_prop dateInput ''toDate'' of
           Inl e \<Rightarrow> Inl e
         | Inr toDate \<Rightarrow>
             (case resolve_dateObject dateInput toDate of
                None \<Rightarrow> Inr ''''
              | Some dateObject \<Rightarrow>
                  (case call_getTime dateObject of
                     Inl e \<Rightarrow> Inl e
                   | Inr None \<Rightarrow> Inr ''''
                   | Inr (Some t) \<Rightarrow> Inr (format_ymd tza t)))))"

section \<open>ReminderForm.validate and the dashboard's handleFormSubmit\<close>

text \<open>The regular expression \<open>/^\d{4}-\d{2}-\d{2}$/\<close>.\<close>

definition dateRegex_test :: "string \<Rightarrow> bool" where
  "dateRegex_test s =
     (length s = 10 \<and> list_all is_digit (take 4 s) \<and> s ! 4 = CHR ''-'' \<and>
      list_all is_digit (take 2 (drop 5 s)) \<and> s ! 7 = CHR ''-'' \<and> list_all is_digit (drop 8 s))"

text \<open>\<open>validate()\<close>: the error messages set for the two fields of the form.\<close>

record form_errors =
  text_error :: "string option"
  date_error :: "string option"

definition validate :: "string \<Rightarrow> string \<Rightarrow> form_errors" where
  "validate text date =
     \<lparr> text_error = (if trim text = [] then Some ''Reminder text cannot be empty.'' else None),
       date_error =
         (if date = [] then Some ''Please select a date.''
          else if \<not> dateRegex_test date then Some ''Invalid date format selected.''
          else None) \<rparr>"

text \<open>
  \<open>handleSubmit\<close>: \<open>onSubmit\<close> is called, with the trimmed text and the date string, only
  when \<open>validate()\<close> set no error.
\<close>

definition handleSubmit :: "string \<Rightarrow> string \<Rightarrow> (string \<times> string) option" where
  "handleSubmit text date =
     (let errs = validate text date in
      if text_error errs = None \<and> date_error errs = None then Some (trim text, date) else None)"

text \<open>
  \<open>handleFormSubmit\<close> up to the call of the service: a form error, or the
  \<open>dataForService\<close> object (text and Date) that is handed to \<open>addReminder\<close> or \<open>updateReminder\<close>.
\<close>

definition parse_date_string :: "int \<Rightarrow> string \<Rightarrow> int option" where
  "parse_date_string tza date =
     (let dateParts = map StringToNumber (split_str CHR ''-'' date)
      in new_Date tza (integer_part (nth_num dateParts 0))
           (integer_part (number_minus_1 (nth_num dateParts 1)))
           (integer_part (nth_num dateParts 2)))"

definition handleFormSubmit :: "int \<Rightarrow> string option \<Rightarrow> string \<times> string \<Rightarrow> string + (string \<times> jsval)" where
  "handleFormSubmit tza uid formData =
     (case uid of
        None \<Rightarrow> Inl ''User not authenticated. Cannot save reminder.''
      | Some u \<Rightarrow>
          if u = [] then Inl ''User not authenticated. Cannot save reminder.''
          else if fst formData = [] \<or> snd formData = [] then Inl ''Invalid form data received.''
          else
            (case parse_date_string tza (snd formData) of
               None \<Rightarrow> Inl ''Invalid date format processed.''
             | Some t \<Rightarrow> Inr (fst formData, JDate (Some t))))"

text \<open>The whole path from the form's fields to the data passed to storage.\<close>

definition submit_form :: "int \<Rightarrow> string option \<Rightarrow> string \<Rightarrow> string \<Rightarrow> string + (string \<times> jsval)" where
  "submit_form tza uid text date =
     (case handleSubmit text date of
        None \<Rightarrow> Inl ''rejected by the form''
      | Some formData \<Rightarrow> handleFormSubmit tza uid formData)"

section \<open>The Firestore collection of reminders\<close>

text \<open>
  The document database behind the service functions. A stored field holds a Firestore
  value; a document is the list of its fields; the collection
  \<open>users/{uid}/reminders\<close> is the list of its documents with their ids. Every call of the
  SDK that reaches the database is recorded in \<open>io_log\<close>, so that "no I/O" is a statement
  about the state.
\<close>

datatype fsval =
    FNull
  | FBool bool
  | FNum "int option"
  | FTimestamp int
  | FString string

type_synonym doc_data = "(string \<times> fsval) list"

datatype io =
    IoAddDoc string
  | IoGetDocs string
  | IoUpdateDoc string string
  | IoDeleteDoc string string

record firestore =
  collection :: "string \<Rightarrow> (string \<times> doc_data) list"
  io_log :: "io list"

definition empty_db :: firestore where
  "empty_db = \<lparr> collection = (\<lambda>uid. []), io_log = [] \<rparr>"

text \<open>\<open>docSnap.data()\<close> hands a stored value to JavaScript.\<close>

fun to_js :: "fsval \<Rightarrow> jsval" where
  "to_js FNull = JNull"
| "to_js (FBool b) = JBool b"
| "to_js (FNum n) = JNum n"
| "to_js (FTimestamp ms) = JTimestamp ms"
| "to_js (FString s) = JStr s"

definition data_field :: "doc_data \<Rightarrow> string \<Rightarrow> jsval" where
  "data_field data name = (case map_of data name of None \<Rightarrow> JUndefined | Some v \<Rightarrow> to_js v)"

text \<open>
  \<open>Timestamp.fromDate(date)\<close> for a valid Date. The SDK's Timestamp constructor refuses
  seconds outside the years 1 to 9999 with an error of its own (not a TypeError).
\<close>

definition Timestamp_fromDate :: "int \<Rightarrow> error + fsval" where
  "Timestamp_fromDate t =
     (if t < - 62135596800000 \<or> 253402300800000 \<le> t
      then Inl (FirestoreError ''Timestamp seconds out of range'')
      else Inr (FTimestamp t))"

text \<open>
  The order of \<open>orderBy(field, 'asc')\<close>: Firestore orders values by type first (null,
  booleans, NaN, numbers, timestamps, strings), then by value, and documents with equal
  values by document id. A document without the field is not part of the result.
\<close>

fun order_key :: "fsval \<Rightarrow> nat \<times> int \<times> string" where
  "order_key FNull = (0, 0, [])"
| "order_key (FBool b) = (1, (if b then 1 else 0), [])"
| "order_key (FNum None) = (2, 0, [])"
| "order_key (FNum (Some n)) = (3, n, [])"
| "order_key (FTimestamp ms) = (4, ms, [])"
| "order_key (FString s) = (5, 0, s)"

definition doc_key :: "string \<Rightarrow> string \<times> doc_data \<Rightarrow> (nat \<times> int \<times> string) \<times> string" where
  "doc_key field d =
     ((case map_of (snd d) field of None \<Rightarrow> (0, 0, []) | Some v \<Rightarrow> order_key v), fst d)"

definition query_orderBy :: "string \<Rightarrow> (string \<times> doc_data) list \<Rightarrow> (string \<times> doc_data) list" where
  "query_orderBy field col =
     sort_key (doc_key field) (filter (\<lambda>d. map_of (snd d) field \<noteq> None) col)"

text \<open>The four calls of the SDK. \<open>addDoc\<close> writes under the id the SDK generated, \<open>newId\<close>.\<close>

definition addDoc :: "string \<Rightarrow> string \<Rightarrow> doc_data \<Rightarrow> firestore \<Rightarrow> (error + string) \<times> firestore" where
  "addDoc uid newId payload db =
     (Inr newId,
      db\<lparr> collection := (collection db)(uid := filter (\<lambda>d. fst d \<noteq> newId) (collection db uid) @ [(newId, payload)]),
          io_log := io_log db @ [IoAddDoc uid] \<rparr>)"

definition getDocs :: "string \<Rightarrow> string \<Rightarrow> firestore \<Rightarrow> (string \<times> doc_data) list \<times> firestore" where
  "getDocs uid field db =
     (query_orderBy field (collection db uid), db\<lparr> io_log := io_log db @ [IoGetDocs uid] \<rparr>)"

text \<open>\<open>updateDoc\<close> sets the given fields of an existing document and keeps its other fields.\<close>

fun set_field :: "doc_data \<Rightarrow> string \<times> fsval \<Rightarrow> doc_data" where
  "set_field [] kv = [kv]"
| "set_field ((k', v') # rest) kv =
     (if k' = fst kv then (k', snd kv) # rest else (k', v') # set_field rest kv)"

definition updateDoc :: "string \<Rightarrow> string \<Rightarrow> doc_data \<Rightarrow> firestore \<Rightarrow> (error + unit) \<times> firestore" where
  "updateDoc uid rid changes db =
     (if rid \<in> fst ` set (collection db uid)
      then (Inr (),
            db\<lparr> collection := (collection db)(uid :=
                   map (\<lambda>d. if fst d = rid then (fst d, foldl set_field (snd d) changes) else d)
                       (collection db uid)),
                io_log := io_log db @ [IoUpdateDoc uid rid] \<rparr>)
      else (Inl (FirestoreError ''not-found''), db\<lparr> io_log := io_log db @ [IoUpdateDoc uid rid] \<rparr>))"

definition deleteDoc :: "string \<Rightarrow> string \<Rightarrow> firestore \<Rightarrow> (error + unit) \<times> firestore" where
  "deleteDoc uid rid db =
     (Inr (),
      db\<lparr> collection := (collection db)(uid := filter (\<lambda>d. fst d \<noteq> rid) (collection db uid)),
          io_log := io_log db @ [IoDeleteDoc uid rid] \<rparr>)"

section \<open>The reminder service\<close>

text \<open>
  \<open>validateNonEmptyString\<close> raises a TypeError unless the value is a string that is not
  empty after trimming; the model returns the string that passed.
\<close>

definition validateNonEmptyString :: "jsval \<Rightarrow> string \<Rightarrow> error + string" where
  "validateNonEmptyString v argName =
     (case v of
        JStr s \<Rightarrow> if trim s = [] then Inl (TypeError (argName @ '' must be a non-empty string.'')) else Inr s
      | _ \<Rightarrow> Inl (TypeError (argName @ '' must be a non-empty string.'')))"

text \<open>
  The test \<open>d instanceof Date && !isNaN(d.getTime())\<close>: the time value when it holds,
  \<open>None\<close> when it fails; the call of \<open>getTime\<close> may raise.
\<close>

definition valid_Date :: "jsval \<Rightarrow> error + int option" where
  "valid_Date d = (if \<not> instanceof_Date d then Inr None else call_getTime d)"

text \<open>
  \<open>addReminder\<close>: the checks and the conversion of the payload, then the write. The
  \<open>catch\<close> block logs and rethrows, so an error of the body is the error of the function.
\<close>

definition addReminder_payload :: "jsval \<Rightarrow> jsval \<Rightarrow> error + (string \<times> doc_data)" where
  "addReminder_payload userId reminderData =
     (case validateNonEmptyString userId ''userId'' of
        Inl e \<Rightarrow> Inl e
      | Inr uid \<Rightarrow>
          if \<not> truthy reminderData \<or> typeof reminderData \<noteq> ''object''
          then Inl (TypeError ''reminderData must be an object.'')
          else
            (case get_prop reminderData ''text'' of
               Inl e \<Rightarrow> Inl e
             | Inr text \<Rightarrow>
                 (case validateNonEmptyString text ''reminderData.text'' of
                    Inl e \<Rightarrow> Inl e
                  | Inr txt \<Rightarrow>
                      (case get_prop reminderData ''date'' of
                         Inl e \<Rightarrow> Inl e
                       | Inr date \<Rightarrow>
                           (case valid_Date date of
                              Inl e \<Rightarrow> Inl e
                            | Inr None \<Rightarrow> Inl (TypeError ''reminderData.date must be a valid Date object.'')
                            | Inr (Some t) \<Rightarrow>
                                (case Timestamp_fromDate t of
                                   Inl e \<Rightarrow> Inl e
                                 | Inr ts \<Rightarrow> Inr (uid, [(''text'', FString txt), (''date'', ts)])))))))"

definition addReminder :: "jsval \<Rightarrow> jsval \<Rightarrow> string \<Rightarrow> firestore \<Rightarrow> (error + string) \<times> firestore" where
  "addReminder userId reminderData newId db =
     (case addReminder_payload userId reminderData of
        Inl e \<Rightarrow> (Inl e, db)
      | Inr (uid, payload) \<Rightarrow> addDoc uid newId payload db)"

record reminder =
  reminder_id :: string
  reminder_text :: jsval
  reminder_date :: jsval

text \<open>The test of the \<open>forEach\<close> body and the object it pushes.\<close>

definition valid_doc :: "string \<times> doc_data \<Rightarrow> bool" where
  "valid_doc d =
     (truthy (data_field (snd d) ''text'') \<and> truthy (data_field (snd d) ''date'') \<and>
      instanceof_Timestamp (data_field (snd d) ''date''))"

definition timestamp_toDate :: "jsval \<Rightarrow> jsval" where
  "timestamp_toDate v = (case v of JTimestamp ms \<Rightarrow> JDate (TimeClip ms) | _ \<Rightarrow> JUndefined)"

definition to_reminder :: "string \<times> doc_data \<Rightarrow> reminder" where
  "to_reminder d =
     \<lparr> reminder_id = fst d,
       reminder_text = data_field (snd d) ''text'',
       reminder_date = timestamp_toDate (data_field (snd d) ''date'') \<rparr>"

definition push_reminder :: "reminder list \<Rightarrow> string \<times> doc_data \<Rightarrow> reminder list" where
  "push_reminder reminders docSnap =
     (if valid_doc docSnap then reminders @ [to_reminder docSnap] else reminders)"

definition getReminders :: "jsval \<Rightarrow> firestore \<Rightarrow> (error + reminder list) \<times> firestore" where
  "getReminders userId db =
     (case validateNonEmptyString userId ''userId'' of
        Inl e \<Rightarrow> (Inl e, db)
      | Inr uid \<Rightarrow>
          (case getDocs uid ''date'' db of
             (querySnapshot, db') \<Rightarrow> (Inr (foldl push_reminder [] querySnapshot), db')))"

text \<open>
  \<open>updateReminder\<close>: the checks build \<open>dataToUpdate\<close>; then the write. The two
  \<open>if (updatedData.hasOwnProperty(...))\<close> blocks are \<open>text_to_update\<close> and
  \<open>date_to_update\<close>: the field each adds to \<open>dataToUpdate\<close>, if any.
\<close>

definition text_to_update :: "jsval \<Rightarrow> error + doc_data" where
  "text_to_update updatedData =
     (case call_hasOwnProperty updatedData ''text'' of
        Inl e \<Rightarrow> Inl e
      | Inr present \<Rightarrow>
          if present then
            (case get_prop updatedData ''text'' of
               Inl e \<Rightarrow> Inl e
             | Inr (JStr s) \<Rightarrow>
                 if trim s = []
                 then Inl (TypeError ''updatedData.text, if provided, must be a non-empty string.'')
                 else Inr [(''text'', FString s)]
             | Inr other \<Rightarrow> Inl (TypeError ''updatedData.text, if provided, must be a non-empty string.''))
          else Inr [])"

definition date_to_update :: "jsval \<Rightarrow> error + doc_data" where
  "date_to_update updatedData =
     (case call_hasOwnProperty updatedData ''date'' of
        Inl e \<Rightarrow> Inl e
      | Inr present \<Rightarrow>
          if present then
            (case get_prop updatedData ''date'' of
               Inl e \<Rightarrow> Inl e
             | Inr date \<Rightarrow>
                 (case valid_Date date of
                    Inl e \<Rightarrow> Inl e
                  | Inr None \<Rightarrow> Inl (TypeError ''updatedData.date, if provided, must be a valid Date object.'')
                  | Inr (Some t) \<Rightarrow>
                      (case Timestamp_fromDate t of
                         Inl e \<Rightarrow> Inl e
                       | Inr ts \<Rightarrow> Inr [(''date'', ts)])))
          else Inr [])"

definition updateReminder_fields :: "jsval \<Rightarrow> error + doc_data" where
  "updateReminder_fields updatedData =
     (if \<not> truthy updatedData \<or> typeof updatedData \<noteq> ''object'' \<or> length (own_keys updatedData) = 0
      then Inl (TypeError ''updatedData must be a non-empty object with fields to update.'')
      else
        (case text_to_update updatedData of
           Inl e \<Rightarrow> Inl e
         | Inr textPart \<Rightarrow>
             (case date_to_update updatedData of
                Inl e \<Rightarrow> Inl e
              | Inr datePart \<Rightarrow>
                  if length (textPart @ datePart) = 0
                  then Inl (TypeError ''updatedData object did not contain any valid fields to update (text or date).'')
                  else Inr (textPart @ datePart))))"

definition updateReminder :: "jsval \<Rightarrow> jsval \<Rightarrow> jsval \<Rightarrow> firestore \<Rightarrow> (error + unit) \<times> firestore" where
  "updateReminder userId reminderId updatedData db =
     (case validateNonEmptyString userId ''userId'' of
        Inl e \<Rightarrow> (Inl e, db)
      | Inr uid \<Rightarrow>
          (case validateNonEmptyString reminderId ''reminderId'' of
             Inl e \<Rightarrow> (Inl e, db)
           | Inr rid \<Rightarrow>
               (case updateReminder_fields updatedData of
                  Inl e \<Rightarrow> (Inl e, db)
                | Inr dataToUpdate \<Rightarrow> updateDoc uid rid dataToUpdate db)))"

definition deleteReminder :: "jsval \<Rightarrow> jsval \<Rightarrow> firestore \<Rightarrow> (error + unit) \<times> firestore" where
  "deleteReminder userId reminderId db =
     (case validateNonEmptyString userId ''userId'' of
        Inl e \<Rightarrow> (Inl e, db)
      | Inr uid \<Rightarrow>
          (case validateNonEmptyString reminderId ''reminderId'' of
             Inl e \<Rightarrow> (Inl e, db)
           | Inr rid \<Rightarrow> deleteDoc uid rid db))"

text \<open>An error is an \<open>InvalidArgument\<close> when it is one of the TypeErrors the service raises.\<close>

fun is_TypeError :: "error + 'a \<Rightarrow> bool" where
  "is_TypeError (Inl (TypeError m)) = True"
| "is_TypeError r = False"

text \<open>A sequence of requests to the service, run against the store.\<close>

datatype request =
    Create jsval jsval string
  | List jsval
  | Update jsval jsval jsval
  | Delete jsval jsval

fun step :: "firestore \<Rightarrow> request \<Rightarrow> firestore" where
  "step db (Create userId reminderData newId) = snd (addReminder userId reminderData newId db)"
| "step db (List userId) = snd (getReminders userId db)"
| "step db (Update userId reminderId updatedData) = snd (updateReminder userId reminderId updatedData db)"
| "step db (Delete userId reminderId) = snd (deleteReminder userId reminderId db)"

definition run :: "request list \<Rightarrow> firestore \<Rightarrow> firestore" where
  "run reqs db = foldl step db reqs"

text \<open>Every stored reminder has a text that is a string and not blank.\<close>

definition stored_text_ok :: "firestore \<Rightarrow> bool" where
  "stored_text_ok db =
     (\<forall>uid. \<forall>d \<in> set (collection db uid).
        \<exists>s. map_of (snd d) ''text'' = Some (FString s) \<and> trim s \<noteq> [])"

definition stored_field :: "firestore \<Rightarrow> string \<Rightarrow> string \<Rightarrow> string \<Rightarrow> fsval option" where
  "stored_field db uid rid name =
     (case map_of (collection db uid) rid of None \<Rightarrow> None | Some data \<Rightarrow> map_of data name)"

section \<open>mapAuthErrorToMessage\<close>

definition mapAuthErrorToMessage :: "jsval \<Rightarrow> string" where
  "mapAuthErrorToMessage err =
     (if truthy err \<and> typeof err = ''object'' \<and> ''code'' \<in> set (own_keys err) then
        (case get_prop err ''code'' of
           Inr (JStr code) \<Rightarrow>
             if code = ''auth/invalid-credential'' \<or> code = ''auth/user-not-found'' \<or> code = ''auth/wrong-password''
             then ''Invalid email or password. Please check your credentials and try again.''
             else if code = ''auth/too-many-requests''
             then ''Access temporarily disabled due to too many failed login attempts. Please reset your password or try again later.''
             else if code = ''auth/network-request-failed''
             then ''Network error. Please check your internet connection and try again.''
             else if code = ''auth/email-already-in-use''
             then ''This email address is already associated with an account.''
             else if code = ''auth/weak-password''
             then ''Password is too weak. Please choose a stronger password.''
             else if code = ''auth/invalid-email''
             then ''Invalid email format. Please enter a valid email address.''
             else ''An unexpected authentication error occurred. Please try again later.''
         | _ \<Rightarrow> ''An unexpected authentication error occurred. Please try again later.'')
      else ''An unexpected error occurred. Please try again.'')"

section \<open>Reading the result of getReminders\<close>

text \<open>\<open>d.getTime()\<close> on a value that may be a Date.\<close>

fun getTime :: "jsval \<Rightarrow> int option" where
  "getTime (JDate t) = t"
| "getTime v = None"

text \<open>Each reminder of the list has a valid Date, not later than those of the reminders after it.\<close>

definition date_le :: "reminder \<Rightarrow> reminder \<Rightarrow> bool" where
  "date_le a b =
     (case (getTime (reminder_date a), getTime (reminder_date b)) of
        (Some x, Some y) \<Rightarrow> x \<le> y
      | _ \<Rightarrow> False)"

definition ascending_by_date :: "reminder list \<Rightarrow> bool" where
  "ascending_by_date rs =
     (sorted_wrt date_le rs \<and> list_all (\<lambda>r. getTime (reminder_date r) \<noteq> None) rs)"

text \<open>The stored timestamps of a collection lie within the range of a JavaScript Date.\<close>

definition timestamps_in_range :: "(string \<times> doc_data) list \<Rightarrow> bool" where
  "timestamps_in_range col =
     list_all (\<lambda>d. case map_of (snd d) ''date'' of
                      Some (FTimestamp ms) \<Rightarrow> \<bar>ms\<bar> \<le> 8640000000000000
                    | _ \<Rightarrow> True) col"

section \<open>Stores used in the examples\<close>

text \<open>One reminder of user u1, dated 2025-06-01 (UTC).\<close>

definition flowers_db :: firestore where
  "flowers_db =
     empty_db\<lparr> collection := (collection empty_db)
       (''u1'' := [(''r1'', [(''text'', FString ''Buy flowers''), (''date'', FTimestamp 1748736000000)])]) \<rparr>"

text \<open>Three reminders of user u1, created in the order 2025-01-03, 2025-01-01, 2025-01-02 (UTC).\<close>

definition january_requests :: "request list" where
  "january_requests =
     [Create (JStr ''u1'') (JObj [(''text'', JStr ''third''), (''date'', JDate (Some 1735862400000))]) ''a'',
      Create (JStr ''u1'') (JObj [(''text'', JStr ''first''), (''date'', JDate (Some 1735689600000))]) ''b'',
      Create (JStr ''u1'') (JObj [(''text'', JStr ''second''), (''date'', JDate (Some 1735776000000))]) ''c'']"

text \<open>The same reminder stored under an owner whose identifier is two spaces.\<close>

definition blank_owner_db :: firestore where
  "blank_owner_db =
     empty_db\<lparr> collection := (collection empty_db)
       (''  '' := [(''r1'', [(''text'', FString ''Buy flowers''), (''date'', FTimestamp 1748736000000)])]) \<rparr>"

text \<open>
  A collection with one well-formed reminder and documents that another writer left
  behind: a number as text, an empty text, a string as date, no date at all.
\<close>

definition corrupt_db :: firestore where
  "corrupt_db =
     empty_db\<lparr> collection := (collection empty_db)
       (''u1'' :=
          [(''r1'', [(''text'', FString ''Buy flowers''), (''date'', FTimestamp 1748736000000)]),
           (''r2'', [(''text'', FNum (Some 42)), (''date'', FTimestamp 1735689600000)]),
           (''r3'', [(''text'', FString []), (''date'', FTimestamp 1735776000000)]),
           (''r4'', [(''text'', FString ''Call''), (''date'', FString ''2025-01-01'')]),
           (''r5'', [(''text'', FString ''Write'')])]) \<rparr>"

section \<open>Properties of the calendar arithmetic\<close>

lemma div_bounds: "(0::int) < n \<Longrightarrow> n * (x div n) \<le> x \<and> x < n * (x div n) + n"
proof -
  assume n: "0 < n"
  have a: "x = n * (x div n) + x mod n" by simp
  have b: "0 \<le> x mod n" "x mod n < n" using n by simp_all
  show ?thesis using a b by linarith
qed

lemma div_unique_int: "(0::int) < n \<Longrightarrow> n * q \<le> x \<Longrightarrow> x < n * q + n \<Longrightarrow> x div n = q"
proof -
  assume n: "0 < n" and lo: "n * q \<le> x" and hi: "x < n * q + n"
  have "x = q * n + (x - n * q)" by (simp add: algebra_simps)
  moreover have "0 \<le> x - n * q" "x - n * q < n" using lo hi by linarith+
  ultimately show ?thesis
    by (metis div_mult_self3 div_pos_pos_trivial add.commute add_0 less_irrefl n)
qed

lemma div_step: "(0::int) < n \<Longrightarrow> (x + 1) div n = x div n + (if (x + 1) mod n = 0 then 1 else 0)"
proof -
  assume n: "0 < n"
  have a: "x = n * (x div n) + x mod n" by simp
  have b: "0 \<le> x mod n" "x mod n < n" using n by simp_all
  have a1: "x + 1 = n * ((x + 1) div n) + (x + 1) mod n" by simp
  have b1: "0 \<le> (x + 1) mod n" "(x + 1) mod n < n" using n by simp_all
  show ?thesis
  proof (cases "(x + 1) mod n = 0")
    case True
    have e: "x + 1 = n * ((x + 1) div n)" using a1 True by simp
    have "n * ((x + 1) div n - 1) = n * ((x + 1) div n) - n" by (simp add: algebra_simps)
    then have "n * ((x + 1) div n - 1) \<le> x" "x < n * ((x + 1) div n - 1) + n"
      using e n by linarith+
    then have "x div n = (x + 1) div n - 1" using div_unique_int[OF n] by blast
    then show ?thesis using True by simp
  next
    case False
    then have "0 < (x + 1) mod n" using b1 by linarith
    then have "n * ((x + 1) div n) \<le> x" "x < n * ((x + 1) div n) + n"
      using a1 b1 by linarith+
    then have "x div n = (x + 1) div n" using div_unique_int[OF n] by blast
    then show ?thesis using False by simp
  qed
qed

lemma mod_shift: "((y::int) - k * n) mod n = y mod n"
  by (metis mod_mult_self2 mult.commute mult_minus_left uminus_add_conv_diff add.commute)

lemma m4: "(y - 1969 + 1) mod 4 = 0 \<longleftrightarrow> (y::int) mod 4 = 0"
  using mod_shift[of y 492 4] by simp
lemma m100: "(y - 1901 + 1) mod 100 = 0 \<longleftrightarrow> (y::int) mod 100 = 0"
  using mod_shift[of y 19 100] by simp
lemma m400: "(y - 1601 + 1) mod 400 = 0 \<longleftrightarrow> (y::int) mod 400 = 0"
  using mod_shift[of y 4 400] by simp
lemma d: "(y::int) mod 400 = 0 \<Longrightarrow> y mod 100 = 0" "(y::int) mod 100 = 0 \<Longrightarrow> y mod 4 = 0"
proof -
  have "(100::int) dvd 400" "(4::int) dvd 100" by simp_all
  then show "(y::int) mod 400 = 0 \<Longrightarrow> y mod 100 = 0" "(y::int) mod 100 = 0 \<Longrightarrow> y mod 4 = 0"
    by (meson dvd_trans mod_eq_0_iff_dvd)+
qed

lemma DayFromYear_step: "DayFromYear (y + 1) = DayFromYear y + DaysInYear y"
proof -
  have a: "(y + 1 - 1969) div 4 = (y - 1969) div 4 + (if y mod 4 = 0 then 1 else 0)"
    using div_step[of 4 "y - 1969"] m4[of y] by (simp add: algebra_simps)
  have b: "(y + 1 - 1901) div 100 = (y - 1901) div 100 + (if y mod 100 = 0 then 1 else 0)"
    using div_step[of 100 "y - 1901"] m100[of y] by (simp add: algebra_simps)
  have c: "(y + 1 - 1601) div 400 = (y - 1601) div 400 + (if y mod 400 = 0 then 1 else 0)"
    using div_step[of 400 "y - 1601"] m400[of y] by (simp add: algebra_simps)
  show ?thesis
    unfolding DayFromYear_def DaysInYear_def a b c using d[of y] by auto
qed

lemma DayFromYear_bounds:
  "146097 * (y - 1970) - 506 \<le> 400 * DayFromYear y"
  "400 * DayFromYear y \<le> 146097 * (y - 1970) + 589"
proof -
  define a where "a = (y - 1969) div 4"
  define b where "b = (y - 1901) div 100"
  define c where "c = (y - 1601) div 400"
  have a: "4 * a \<le> y - 1969" "y - 1969 < 4 * a + 4"
    unfolding a_def using div_bounds[of 4 "y - 1969"] by simp_all
  have b: "100 * b \<le> y - 1901" "y - 1901 < 100 * b + 100"
    unfolding b_def using div_bounds[of 100 "y - 1901"] by simp_all
  have c: "400 * c \<le> y - 1601" "y - 1601 < 400 * c + 400"
    unfolding c_def using div_bounds[of 400 "y - 1601"] by simp_all
  have e: "DayFromYear y = 365 * (y - 1970) + a - b + c"
    by (simp add: DayFromYear_def a_def b_def c_def)
  show "146097 * (y - 1970) - 506 \<le> 400 * DayFromYear y" using a b c unfolding e by (simp add: algebra_simps)
  show "400 * DayFromYear y \<le> 146097 * (y - 1970) + 589" using a b c unfolding e by (simp add: algebra_simps)
qed

lemma YearFromDay_spec:
  "DayFromYear (YearFromDay d) \<le> d" "d < DayFromYear (YearFromDay d + 1)"
proof -
  define y where "y = (d * 400) div 146097 + 1970"
  have q: "146097 * (y - 1970) \<le> 400 * d" "400 * d < 146097 * (y - 1970) + 146097"
    unfolding y_def using div_bounds[of 146097 "d * 400"] by (simp_all add: algebra_simps)
  have lo: "DayFromYear (y - 1) \<le> d"
    using DayFromYear_bounds(2)[of "y - 1"] q by (simp add: algebra_simps)
  have hi: "d < DayFromYear (y + 2)"
    using DayFromYear_bounds(1)[of "y + 2"] q by (simp add: algebra_simps)
  have yd: "YearFromDay d = (if d < DayFromYear y then y - 1 else if DayFromYear (y + 1) \<le> d then y + 1 else y)"
    by (simp add: YearFromDay_def y_def Let_def)
  show "DayFromYear (YearFromDay d) \<le> d" using lo unfolding yd by auto
  have e2: "y + 1 + 1 = y + 2" "y - 1 + 1 = y" by simp_all
  show "d < DayFromYear (YearFromDay d + 1)"
  proof (cases "d < DayFromYear y")
    case True
    then have "YearFromDay d = y - 1" by (simp add: yd)
    then show ?thesis using True by (simp only: e2)
  next
    case False
    show ?thesis
    proof (cases "DayFromYear (y + 1) \<le> d")
      case True
      with False have "YearFromDay d = y + 1" by (simp add: yd)
      then show ?thesis using hi by (simp only: e2)
    next
      case nle: False
      with False have "YearFromDay d = y" by (simp add: yd)
      then show ?thesis using nle by simp
    qed
  qed
qed

lemma DaysInYear_range: "DaysInYear y = 365 \<or> DaysInYear y = 366"
  by (simp add: DaysInYear_def)

lemma DayFromYear_add: "DayFromYear y + 365 * int n \<le> DayFromYear (y + int n)"
proof (induction n)
  case 0
  then show ?case by simp
next
  case (Suc n)
  have "y + int (Suc n) = y + int n + 1" by simp
  then have "DayFromYear (y + int (Suc n)) = DayFromYear (y + int n) + DaysInYear (y + int n)"
    using DayFromYear_step[of "y + int n"] by (simp only:)
  then show ?case using Suc DaysInYear_range[of "y + int n"] by auto
qed

lemma DayFromYear_mono: "y \<le> y' \<Longrightarrow> DayFromYear y \<le> DayFromYear y'"
proof -
  assume "y \<le> y'"
  then obtain n where "y' = y + int n" by (metis zle_iff_zadd)
  then show ?thesis using DayFromYear_add[of y n] by simp
qed

lemma DayFromYear_strict: "y < y' \<Longrightarrow> DayFromYear y < DayFromYear y'"
proof -
  assume "y < y'"
  then have "DayFromYear (y + 1) \<le> DayFromYear y'" by (simp add: DayFromYear_mono)
  then show ?thesis using DayFromYear_step[of y] DaysInYear_range[of y] by auto
qed

lemma YearFromDay_unique:
  assumes "DayFromYear y \<le> d" "d < DayFromYear (y + 1)"
  shows "YearFromDay d = y"
proof (rule ccontr)
  assume ne: "YearFromDay d \<noteq> y"
  show False
  proof (cases "YearFromDay d < y")
    case True
    then have "DayFromYear (YearFromDay d + 1) \<le> DayFromYear y" by (simp add: DayFromYear_mono)
    then show False using YearFromDay_spec(2)[of d] assms by linarith
  next
    case False
    then have "y + 1 \<le> YearFromDay d" using ne by linarith
    then have "DayFromYear (y + 1) \<le> DayFromYear (YearFromDay d)" by (rule DayFromYear_mono)
    then show False using YearFromDay_spec(1)[of d] assms by linarith
  qed
qed

lemma DayWithinYear_range: "0 \<le> DayWithinYear t" "DayWithinYear t < 365 + InLeapYear t"
proof -
  show "0 \<le> DayWithinYear t"
    using YearFromDay_spec(1)[of "Day t"] by (simp add: DayWithinYear_def YearFromTime_def)
  show "DayWithinYear t < 365 + InLeapYear t"
    using YearFromDay_spec(2)[of "Day t"] DayFromYear_step[of "YearFromDay (Day t)"]
      DaysInYear_range[of "YearFromDay (Day t)"]
    by (auto simp: DayWithinYear_def YearFromTime_def InLeapYear_def)
qed

lemma InLeapYear_range: "InLeapYear t = 0 \<or> InLeapYear t = 1"
  by (simp add: InLeapYear_def)

lemma MonthFromTime_range: "0 \<le> MonthFromTime t" "MonthFromTime t \<le> 11"
  by (simp_all add: MonthFromTime_def Let_def)

lemma DateFromTime_range: "1 \<le> DateFromTime t" "DateFromTime t \<le> 31"
  using DayWithinYear_range[of t] InLeapYear_range[of t]
  by (auto simp: DateFromTime_def MonthFromTime_def MonthStart_def Let_def)

lemma MakeDay_fields: "MakeDay (YearFromTime t) (MonthFromTime t) (DateFromTime t) = Day t"
proof -
  have m: "MonthFromTime t div 12 = 0" "MonthFromTime t mod 12 = MonthFromTime t"
    using MonthFromTime_range[of t] by simp_all
  show ?thesis
    unfolding MakeDay_def Let_def m
    by (simp add: DateFromTime_def InLeapYear_def DayWithinYear_def)
qed

section \<open>Properties of the string functions\<close>

lemma of_char_digit_char: "n < 10 \<Longrightarrow> (of_char (digit_char n) :: nat) = 48 + n"
  by (simp add: digit_char_def)

lemma is_digit_digit_char: "n < 10 \<Longrightarrow> is_digit (digit_char n)"
  by (simp add: is_digit_def of_char_digit_char)

lemma digit_val_digit_char: "n < 10 \<Longrightarrow> digit_val (digit_char n) = n"
  by (simp add: digit_val_def of_char_digit_char)

lemma decimal_digits: "list_all is_digit (decimal n)"
proof (induction n rule: decimal.induct)
  case (1 n)
  show ?case
  proof (cases "n < 10")
    case True
    then show ?thesis by (simp add: decimal.simps[of n] is_digit_digit_char)
  next
    case False
    then show ?thesis using 1 by (simp add: decimal.simps[of n] is_digit_digit_char)
  qed
qed

lemma decimal_nonempty: "decimal n \<noteq> []"
  by (simp add: decimal.simps[of n])

lemma decimal_value_snoc: "decimal_value (ds @ [c]) = decimal_value ds * 10 + digit_val c"
  by (simp add: decimal_value_def)

lemma decimal_value_decimal: "decimal_value (decimal n) = n"
proof (induction n rule: decimal.induct)
  case (1 n)
  show ?case
  proof (cases "n < 10")
    case True
    then show ?thesis by (simp add: decimal.simps[of n] decimal_value_def digit_val_digit_char)
  next
    case False
    then have "decimal_value (decimal n) = decimal_value (decimal (n div 10)) * 10 + n mod 10"
      by (simp add: decimal.simps[of n] decimal_value_snoc digit_val_digit_char)
    then show ?thesis using 1 False by simp
  qed
qed

lemma decimal_value_zeros: "decimal_value (replicate k CHR ''0'' @ ds) = decimal_value ds"
proof (induction k)
  case 0
  then show ?case by simp
next
  case (Suc k)
  have "\<And>acc ds. foldl (\<lambda>acc c. acc * 10 + digit_val c) acc (replicate k CHR ''0'' @ ds) =
        foldl (\<lambda>acc c. acc * 10 + digit_val c) (acc * 10 ^ k) ds"
  proof -
    fix acc ds show "foldl (\<lambda>acc c. acc * 10 + digit_val c) acc (replicate k CHR ''0'' @ ds) =
        foldl (\<lambda>acc c. acc * 10 + digit_val c) (acc * 10 ^ k) ds"
      by (induction k arbitrary: acc) (simp_all add: digit_val_def algebra_simps)
  qed
  then show ?case using Suc by (simp add: decimal_value_def digit_val_def)
qed

lemma is_digit_not_space: "is_digit c \<Longrightarrow> \<not> is_space c"
  by (auto simp: is_digit_def is_space_def)

lemma trim_digits: "list_all is_digit s \<Longrightarrow> trim s = s"
proof (cases s rule: rev_cases)
  case Nil
  then show ?thesis by (simp add: trim_def)
next
  case (snoc ys y)
  assume d: "list_all is_digit s"
  then have l: "\<not> is_space y" using snoc by (simp add: is_digit_not_space)
  have h: "dropWhile is_space s = s"
  proof (cases s)
    case Nil
    then show ?thesis by simp
  next
    case (Cons x xs)
    then show ?thesis using d by (simp add: is_digit_not_space)
  qed
  show ?thesis unfolding trim_def h using snoc l by simp
qed

lemma is_digit_not_sign: "is_digit c \<Longrightarrow> c \<noteq> CHR ''-'' \<and> c \<noteq> CHR ''+''"
  by (auto simp: is_digit_def)

lemma is_digit_not_radix_letter:
  "is_digit c \<Longrightarrow> c \<noteq> CHR ''x'' \<and> c \<noteq> CHR ''X'' \<and> c \<noteq> CHR ''o'' \<and> c \<noteq> CHR ''O'' \<and>
                c \<noteq> CHR ''b'' \<and> c \<noteq> CHR ''B''"
  by (auto simp: is_digit_def)

lemma digits_not_non_decimal:
  assumes "list_all is_digit t"
  shows "non_decimal_literal t = None"
proof (cases t)
  case Nil
  then show ?thesis by (simp add: non_decimal_literal_def)
next
  case (Cons c0 r)
  show ?thesis
  proof (cases r)
    case Nil
    then show ?thesis using Cons by (simp add: non_decimal_literal_def)
  next
    case (Cons c1 ds)
    then have "is_digit c1" using assms \<open>t = c0 # r\<close> by simp
    then show ?thesis
      using is_digit_not_radix_letter[of c1] Cons \<open>t = c0 # r\<close>
      by (simp add: non_decimal_literal_def)
  qed
qed

lemma digits_not_Infinity:
  assumes "list_all is_digit t"
  shows "t \<noteq> ''Infinity''"
proof
  assume "t = ''Infinity''"
  then have "is_digit CHR ''I''" using assms by simp
  then show False by (simp add: is_digit_def)
qed

lemma unsigned_decimal_digits:
  assumes "list_all is_digit t" "t \<noteq> []"
  shows "unsigned_decimal t = JsDec (int (decimal_value t)) 0"
proof -
  have tw: "takeWhile is_digit t = t" using assms(1) by (simp add: takeWhile_eq_all_conv list_all_iff)
  have dw: "dropWhile is_digit t = []" using assms(1) by (simp add: list_all_iff)
  show ?thesis
    unfolding unsigned_decimal_def Let_def tw dw
    using assms(2) digits_not_Infinity[OF assms(1)] by simp
qed

lemma StringToNumber_digits:
  assumes "list_all is_digit s"
  shows "StringToNumber s = JsDec (int (decimal_value s)) 0"
proof (cases s)
  case Nil
  then show ?thesis by (simp add: StringToNumber_def trim_def decimal_value_def)
next
  case (Cons c cs)
  then have "is_digit c" using assms by simp
  then have "hd s \<noteq> CHR ''-''" "hd s \<noteq> CHR ''+''" using Cons is_digit_not_sign by auto
  moreover have "s \<noteq> []" using Cons by simp
  ultimately show ?thesis
    unfolding StringToNumber_def Let_def trim_digits[OF assms]
    by (simp add: digits_not_non_decimal[OF assms] unsigned_decimal_digits[OF assms])
qed

lemma padStart_digits: "list_all is_digit s \<Longrightarrow> list_all is_digit (padStart n CHR ''0'' s)"
  by (auto simp: padStart_def is_digit_def list_all_iff)

lemma StringToNumber_decimal: "StringToNumber (decimal n) = JsDec (int n) 0"
  by (simp add: StringToNumber_digits decimal_digits decimal_value_decimal)

lemma StringToNumber_padded: "StringToNumber (padStart k CHR ''0'' (decimal n)) = JsDec (int n) 0"
  using StringToNumber_digits[OF padStart_digits[OF decimal_digits[of n], of k]]
  by (simp add: padStart_def decimal_value_zeros decimal_value_decimal)

lemma split_str_no_sep: "sep \<notin> set s \<Longrightarrow> split_str sep s = [s]"
  by (induction s) auto

lemma split_str_append: "sep \<notin> set a \<Longrightarrow> split_str sep (a @ sep # rest) = a # split_str sep rest"
  by (induction a) auto

lemma digits_no_dash: "list_all is_digit s \<Longrightarrow> CHR ''-'' \<notin> set s"
  using is_digit_not_sign by (auto simp: list_all_iff)

lemma split_three:
  assumes "list_all is_digit a" "list_all is_digit b" "list_all is_digit c"
  shows "split_str CHR ''-'' (a @ ''-'' @ b @ ''-'' @ c) = [a, b, c]"
  using assms by (simp add: split_str_append split_str_no_sep digits_no_dash)

section \<open>Properties of the service functions\<close>

lemma validateNonEmptyString_cases:
  "validateNonEmptyString v argName = Inr s \<longleftrightarrow> v = JStr s \<and> trim s \<noteq> []"
  by (auto simp: validateNonEmptyString_def split: jsval.splits)

lemma validateNonEmptyString_fail:
  "(\<And>s. v = JStr s \<Longrightarrow> trim s = []) \<Longrightarrow>
   validateNonEmptyString v argName = Inl (TypeError (argName @ '' must be a non-empty string.''))"
  by (auto simp: validateNonEmptyString_def split: jsval.splits)

lemma validateNonEmptyString_error:
  "validateNonEmptyString v argName = Inl e \<Longrightarrow> e = TypeError (argName @ '' must be a non-empty string.'')"
  by (auto simp: validateNonEmptyString_def split: jsval.splits if_splits)

lemma trim_Nil: "trim [] = []"
  by (simp add: trim_def)

lemma own_key_of_map_of: "map_of ps k = Some v \<Longrightarrow> k \<in> set (own_keys (JObj ps))"
  by (auto dest: map_of_SomeD intro: rev_image_eqI)

lemma map_of_set_field:
  "map_of (set_field data kv) name = (if name = fst kv then Some (snd kv) else map_of data name)"
  by (induction data) (auto simp: prod_eq_iff)

lemma map_of_foldl_set_field_other:
  "name \<notin> fst ` set changes \<Longrightarrow> map_of (foldl set_field data changes) name = map_of data name"
  by (induction changes arbitrary: data) (auto simp: map_of_set_field)

lemma map_of_foldl_set_field_one:
  "map_of (foldl set_field data [(k, v)]) name = (if name = k then Some v else map_of data name)"
  by (simp add: map_of_set_field)

lemma map_of_update_docs:
  "map_of (map (\<lambda>d. if fst d = rid then (fst d, g (snd d)) else d) col) r =
     (if r = rid then map_option g (map_of col r) else map_of col r)"
  by (induction col) auto

lemma map_of_in_keys: "map_of col rid = Some data \<Longrightarrow> rid \<in> fst ` set col"
  by (auto dest: map_of_SomeD intro: rev_image_eqI)

lemma Timestamp_fromDate_cases:
  "Timestamp_fromDate t = Inr ts \<Longrightarrow> ts = FTimestamp t"
  by (auto simp: Timestamp_fromDate_def split: if_splits)

lemma Timestamp_fromDate_error:
  "Timestamp_fromDate t = Inl e \<Longrightarrow> e = FirestoreError ''Timestamp seconds out of range''"
  by (auto simp: Timestamp_fromDate_def split: if_splits)

lemma valid_Date_Some: "valid_Date d = Inr (Some t) \<longleftrightarrow> d = JDate (Some t)"
  by (cases d) (auto simp: valid_Date_def)

lemma valid_Date_error: "valid_Date d = Inl e \<Longrightarrow> e = TypeError ''getTime is not a function''"
  by (cases d) (auto simp: valid_Date_def)

text \<open>Reading a property other than \<open>toDate\<close> of a truthy value raises nothing.\<close>

lemma get_prop_data:
  assumes "truthy v" "name \<noteq> ''toDate''"
  shows "\<exists>x. get_prop v name = Inr x"
  using assms by (cases v) auto

lemma get_prop_own:
  assumes "get_prop v name = Inr x" "x \<noteq> JUndefined" "name \<noteq> ''toDate''"
  shows "name \<in> set (own_keys v)"
proof (cases v)
  case (JObj ps)
  then show ?thesis using assms by (auto split: option.splits dest: map_of_SomeD intro: rev_image_eqI)
next
  case (JNullProtoObj ps)
  then show ?thesis using assms by (auto split: option.splits dest: map_of_SomeD intro: rev_image_eqI)
qed (use assms in \<open>auto split: if_splits\<close>)

text \<open>What each block adds to \<open>dataToUpdate\<close>, and what \<open>dataToUpdate\<close> can be when the
  checks of updateReminder pass.\<close>

lemma text_to_update_shape:
  assumes "text_to_update updatedData = Inr textPart"
  shows "textPart = [] \<or>
         (\<exists>s. textPart = [(''text'', FString s)] \<and> trim s \<noteq> [] \<and>
              get_prop updatedData ''text'' = Inr (JStr s))"
  using assms unfolding text_to_update_def
  by (auto split: sum.splits if_splits jsval.splits)

lemma date_to_update_shape:
  assumes "date_to_update updatedData = Inr datePart"
  shows "datePart = [] \<or>
         (\<exists>t. datePart = [(''date'', FTimestamp t)] \<and>
              get_prop updatedData ''date'' = Inr (JDate (Some t)))"
  using assms unfolding date_to_update_def
  by (auto split: sum.splits if_splits option.splits simp: valid_Date_Some
      dest!: Timestamp_fromDate_cases)

lemma updateReminder_fields_shape:
  assumes "updateReminder_fields updatedData = Inr changes"
  shows "fst ` set changes \<subseteq> {''text'', ''date''} \<inter> set (own_keys updatedData) \<and>
         (\<forall>v. (''text'', v) \<in> set changes \<longrightarrow> (\<exists>s. v = FString s \<and> trim s \<noteq> []))"
proof -
  obtain textPart datePart where
    t: "text_to_update updatedData = Inr textPart" and
    d: "date_to_update updatedData = Inr datePart" and
    c: "changes = textPart @ datePart"
    using assms unfolding updateReminder_fields_def by (auto split: if_splits sum.splits)
  have "''text'' \<in> set (own_keys updatedData)" if "get_prop updatedData ''text'' = Inr (JStr s)" for s
    using get_prop_own[OF that] by simp
  moreover have "''date'' \<in> set (own_keys updatedData)" if "get_prop updatedData ''date'' = Inr (JDate (Some t))" for t
    using get_prop_own[OF that] by simp
  ultimately show ?thesis
    using text_to_update_shape[OF t] date_to_update_shape[OF d] unfolding c by auto
qed

lemma addReminder_payload_text:
  assumes "addReminder_payload userId reminderData = Inr (uid, payload)"
  shows "\<exists>s. map_of payload ''text'' = Some (FString s) \<and> trim s \<noteq> []"
  using assms unfolding addReminder_payload_def
  by (auto split: sum.splits if_splits option.splits simp: validateNonEmptyString_cases)

lemma addReminder_payload_error_blank:
  assumes "(\<forall>s. get_prop reminderData ''text'' = Inr (JStr s) \<longrightarrow> trim s = []) \<or>
           (\<forall>t. get_prop reminderData ''date'' \<noteq> Inr (JDate (Some t)))"
  shows "is_TypeError (addReminder_payload userId reminderData)"
proof (cases "validateNonEmptyString userId ''userId''")
  case (Inl e)
  then show ?thesis
    using validateNonEmptyString_error[OF Inl] by (simp add: addReminder_payload_def)
next
  case uid: (Inr uid)
  show ?thesis
  proof (cases "\<not> truthy reminderData \<or> typeof reminderData \<noteq> ''object''")
    case True
    then show ?thesis using uid by (auto simp: addReminder_payload_def)
  next
    case False
    then have tr: "truthy reminderData" by simp
    obtain tv where rt: "get_prop reminderData ''text'' = Inr tv"
      using get_prop_data[OF tr, of "''text''"] by auto
    obtain dv where rd: "get_prop reminderData ''date'' = Inr dv"
      using get_prop_data[OF tr, of "''date''"] by auto
    show ?thesis
    proof (cases "validateNonEmptyString tv ''reminderData.text''")
      case (Inl e)
      then show ?thesis
        using validateNonEmptyString_error[OF Inl] uid False rt
        by (simp add: addReminder_payload_def)
    next
      case st: (Inr str)
      then have tx: "tv = JStr str" "trim str \<noteq> []" by (simp_all add: validateNonEmptyString_cases)
      show ?thesis
      proof (cases "valid_Date dv")
        case (Inl e)
        then show ?thesis
          using valid_Date_error[OF Inl] uid False rt st rd
          by (simp add: addReminder_payload_def)
      next
        case (Inr r)
        show ?thesis
        proof (cases r)
          case None
          then show ?thesis using Inr uid False rt st rd by (simp add: addReminder_payload_def)
        next
          case (Some t)
          then have "dv = JDate (Some t)" using Inr by (simp add: valid_Date_Some)
          then have False using assms rt rd tx by auto
          then show ?thesis ..
        qed
      qed
    qed
  qed
qed

lemma stored_text_okD:
  "stored_text_ok db \<Longrightarrow> d \<in> set (collection db uid) \<Longrightarrow>
   \<exists>s. map_of (snd d) ''text'' = Some (FString s) \<and> trim s \<noteq> []"
  unfolding stored_text_ok_def by blast

lemma collection_addDoc:
  "d \<in> set (collection (snd (addDoc uid newId payload db)) u) \<Longrightarrow>
   d \<in> set (collection db u) \<or> d = (newId, payload)"
  by (auto simp: addDoc_def split: if_splits)

lemma collection_updateDoc:
  "d \<in> set (collection (snd (updateDoc uid rid changes db)) u) \<Longrightarrow>
   d \<in> set (collection db u) \<or>
   (\<exists>data. (rid, data) \<in> set (collection db u) \<and> d = (rid, foldl set_field data changes))"
  by (auto simp: updateDoc_def split: if_splits)

lemma collection_deleteDoc:
  "d \<in> set (collection (snd (deleteDoc uid rid db)) u) \<Longrightarrow> d \<in> set (collection db u)"
  by (auto simp: deleteDoc_def split: if_splits)

lemma stored_text_ok_addDoc:
  assumes "stored_text_ok db" "\<exists>s. map_of payload ''text'' = Some (FString s) \<and> trim s \<noteq> []"
  shows "stored_text_ok (snd (addDoc uid newId payload db))"
  unfolding stored_text_ok_def
proof (intro allI ballI)
  fix u d assume "d \<in> set (collection (snd (addDoc uid newId payload db)) u)"
  then have "d \<in> set (collection db u) \<or> d = (newId, payload)" by (rule collection_addDoc)
  then show "\<exists>s. map_of (snd d) ''text'' = Some (FString s) \<and> trim s \<noteq> []"
  proof
    assume "d \<in> set (collection db u)"
    then show ?thesis by (rule stored_text_okD[OF assms(1)])
  next
    assume "d = (newId, payload)"
    then show ?thesis using assms(2) by simp
  qed
qed

lemma stored_text_ok_io: "stored_text_ok (db\<lparr>io_log := l\<rparr>) = stored_text_ok db"
  by (simp add: stored_text_ok_def)

lemma text_kept_by_changes:
  assumes "\<forall>v. (''text'', v) \<in> set changes \<longrightarrow> (\<exists>s. v = FString s \<and> trim s \<noteq> [])"
    and "\<exists>s. map_of data ''text'' = Some (FString s) \<and> trim s \<noteq> []"
  shows "\<exists>s. map_of (foldl set_field data changes) ''text'' = Some (FString s) \<and> trim s \<noteq> []"
  using assms
proof (induction changes arbitrary: data)
  case Nil
  then show ?case by simp
next
  case (Cons kv changes)
  obtain k v where kv: "kv = (k, v)" by (cases kv)
  have "\<exists>s. map_of (set_field data kv) ''text'' = Some (FString s) \<and> trim s \<noteq> []"
    using Cons.prems unfolding kv by (auto simp: map_of_set_field)
  then show ?case using Cons.IH[of "set_field data kv"] Cons.prems(1) by simp
qed

lemma stored_text_ok_updateDoc:
  assumes "stored_text_ok db"
    and "\<forall>v. (''text'', v) \<in> set changes \<longrightarrow> (\<exists>s. v = FString s \<and> trim s \<noteq> [])"
  shows "stored_text_ok (snd (updateDoc uid rid changes db))"
  unfolding stored_text_ok_def
proof (intro allI ballI)
  fix u d assume "d \<in> set (collection (snd (updateDoc uid rid changes db)) u)"
  then consider "d \<in> set (collection db u)"
    | data where "(rid, data) \<in> set (collection db u)" "d = (rid, foldl set_field data changes)"
    using collection_updateDoc by blast
  then show "\<exists>s. map_of (snd d) ''text'' = Some (FString s) \<and> trim s \<noteq> []"
  proof cases
    case 1
    then show ?thesis by (rule stored_text_okD[OF assms(1)])
  next
    case 2
    show ?thesis
      using text_kept_by_changes[OF assms(2)] stored_text_okD[OF assms(1) 2(1)] 2(2) by simp
  qed
qed

lemma stored_text_ok_deleteDoc:
  "stored_text_ok db \<Longrightarrow> stored_text_ok (snd (deleteDoc uid rid db))"
  unfolding stored_text_ok_def using collection_deleteDoc by blast

lemma stored_text_ok_step: "stored_text_ok db \<Longrightarrow> stored_text_ok (step db req)"
proof (cases req)
  case (Create userId reminderData newId)
  assume ok: "stored_text_ok db"
  show ?thesis
  proof (cases "addReminder_payload userId reminderData")
    case (Inl e)
    then show ?thesis using ok Create by (simp add: addReminder_def)
  next
    case (Inr p)
    obtain uid payload where p: "p = (uid, payload)" by (cases p)
    show ?thesis
      using stored_text_ok_addDoc[OF ok addReminder_payload_text[OF Inr[unfolded p]]] Create Inr p
      by (simp add: addReminder_def)
  qed
next
  case (List userId)
  assume ok: "stored_text_ok db"
  then show ?thesis using List
    by (auto simp: getReminders_def getDocs_def stored_text_ok_io split: sum.splits)
next
  case (Update userId reminderId updatedData)
  assume ok: "stored_text_ok db"
  show ?thesis
    using ok Update stored_text_ok_updateDoc[OF ok] updateReminder_fields_shape[of updatedData]
    by (auto simp: updateReminder_def split: sum.splits)
next
  case (Delete userId reminderId)
  assume ok: "stored_text_ok db"
  then show ?thesis using Delete stored_text_ok_deleteDoc[OF ok]
    by (auto simp: deleteReminder_def split: sum.splits)
qed

lemma stored_text_ok_run: "stored_text_ok db \<Longrightarrow> stored_text_ok (run reqs db)"
  unfolding run_def by (induction reqs arbitrary: db) (simp_all add: stored_text_ok_step)

lemma stored_text_ok_empty: "stored_text_ok empty_db"
  by (simp add: stored_text_ok_def empty_db_def)

lemma stored_field_updateDoc:
  "stored_field (snd (updateDoc uid rid changes db)) u r name =
     (if u = uid \<and> r = rid \<and> rid \<in> fst ` set (collection db uid)
      then (case map_of (collection db uid) rid of
              None \<Rightarrow> None
            | Some data \<Rightarrow> map_of (foldl set_field data changes) name)
      else stored_field db u r name)"
  using map_of_update_docs[of rid "\<lambda>data. foldl set_field data changes" "collection db uid" r]
  by (auto simp: stored_field_def updateDoc_def split: option.splits)

lemma stored_field_updateDoc_frame:
  assumes "name \<notin> fst ` set changes"
  shows "stored_field (snd (updateDoc uid rid changes db)) u r name = stored_field db u r name"
  unfolding stored_field_updateDoc
  using assms by (auto simp: stored_field_def map_of_foldl_set_field_other split: option.splits)

lemma call_hasOwnProperty_plain:
  assumes "''hasOwnProperty'' \<notin> fst ` set ps"
  shows "call_hasOwnProperty (JObj ps) name = Inr (name \<in> fst ` set ps)"
proof -
  have "map_of ps ''hasOwnProperty'' = None" using assms by (simp add: map_of_eq_None_iff)
  then show ?thesis by (simp add: call_hasOwnProperty_def)
qed

lemma updateReminder_fields_text_only:
  assumes "map_of ps ''text'' = Some (JStr s)" "trim s \<noteq> []" "''date'' \<notin> fst ` set ps"
    and "''hasOwnProperty'' \<notin> fst ` set ps"
  shows "updateReminder_fields (JObj ps) = Inr [(''text'', FString s)]"
proof -
  have k: "''text'' \<in> fst ` set ps" using assms(1) by (rule map_of_in_keys)
  then have ne: "ps \<noteq> []" by auto
  have t: "text_to_update (JObj ps) = Inr [(''text'', FString s)]"
    using assms(1,2) k by (simp add: text_to_update_def call_hasOwnProperty_plain[OF assms(4)])
  have d: "date_to_update (JObj ps) = Inr []"
    using assms(3) by (simp add: date_to_update_def call_hasOwnProperty_plain[OF assms(4)])
  show ?thesis using ne by (simp add: updateReminder_fields_def t d)
qed


section \<open>Properties of the list query\<close>

lemma foldl_push_reminder:
  "foldl push_reminder acc docs = acc @ map to_reminder (filter valid_doc docs)"
  by (induction docs arbitrary: acc) (simp_all add: push_reminder_def)

lemma set_query_orderBy:
  "set (query_orderBy field col) = {d \<in> set col. map_of (snd d) field \<noteq> None}"
  by (simp add: query_orderBy_def)

lemma length_filter_insort_key:
  "length (filter P (insort_key f x xs)) = length (filter P (x # xs))"
  by (induction xs) auto

lemma length_filter_sort_key: "length (filter P (sort_key f xs)) = length (filter P xs)"
  by (induction xs) (simp_all add: length_filter_insort_key)

lemma valid_doc_iff:
  "valid_doc d \<longleftrightarrow>
     (\<exists>v. map_of (snd d) ''text'' = Some v \<and> v \<noteq> FNull \<and> v \<noteq> FBool False \<and> v \<noteq> FNum None \<and>
          v \<noteq> FNum (Some 0) \<and> v \<noteq> FString []) \<and>
     (\<exists>ms. map_of (snd d) ''date'' = Some (FTimestamp ms))"
proof -
  have t: "\<And>v. truthy (to_js v) \<longleftrightarrow> v \<noteq> FNull \<and> v \<noteq> FBool False \<and> v \<noteq> FNum None \<and>
          v \<noteq> FNum (Some 0) \<and> v \<noteq> FString []"
  proof -
    fix v show "truthy (to_js v) \<longleftrightarrow> v \<noteq> FNull \<and> v \<noteq> FBool False \<and> v \<noteq> FNum None \<and>
          v \<noteq> FNum (Some 0) \<and> v \<noteq> FString []"
      by (cases v rule: order_key.cases) auto
  qed
  have i: "\<And>v. instanceof_Timestamp (to_js v) \<longleftrightarrow> (\<exists>ms. v = FTimestamp ms)"
  proof -
    fix v show "instanceof_Timestamp (to_js v) \<longleftrightarrow> (\<exists>ms. v = FTimestamp ms)" by (cases v) auto
  qed
  show ?thesis
    unfolding valid_doc_def data_field_def
    by (cases "map_of (snd d) ''text''"; cases "map_of (snd d) ''date''") (auto simp: t i)
qed

lemma valid_doc_has_date: "valid_doc d \<Longrightarrow> map_of (snd d) ''date'' \<noteq> None"
  by (auto simp: valid_doc_iff)

lemma valid_docs_of_query:
  "set (filter valid_doc (query_orderBy ''date'' col)) = {d \<in> set col. valid_doc d}"
  using valid_doc_has_date by (auto simp: set_query_orderBy)

lemma length_valid_docs_of_query:
  "length (filter valid_doc (query_orderBy ''date'' col)) = length (filter valid_doc col)"
proof -
  have "filter valid_doc (filter (\<lambda>d. map_of (snd d) ''date'' \<noteq> None) col) = filter valid_doc col"
    using valid_doc_has_date by (auto intro: filter_cong)
  then show ?thesis
    unfolding query_orderBy_def by (simp only: length_filter_sort_key)
qed

lemma getReminders_valid_owner:
  assumes "trim uid \<noteq> []"
  shows "getReminders (JStr uid) db =
           (Inr (map to_reminder (filter valid_doc (query_orderBy ''date'' (collection db uid)))),
            db\<lparr>io_log := io_log db @ [IoGetDocs uid]\<rparr>)"
  using assms
  by (simp add: getReminders_def validateNonEmptyString_def getDocs_def foldl_push_reminder)

lemma query_sorted:
  "sorted_wrt (\<lambda>a b. doc_key field a \<le> doc_key field b) (query_orderBy field col)"
proof -
  have "sorted (map (doc_key field) (query_orderBy field col))"
    unfolding query_orderBy_def by (rule sorted_sort_key)
  then show ?thesis by (simp add: sorted_map)
qed

lemma date_le_of_keys:
  assumes "valid_doc a" "valid_doc b" "timestamps_in_range col" "a \<in> set col" "b \<in> set col"
    and "doc_key ''date'' a \<le> doc_key ''date'' b"
  shows "date_le (to_reminder a) (to_reminder b)"
proof -
  obtain ma where ma: "map_of (snd a) ''date'' = Some (FTimestamp ma)"
    using assms(1) by (auto simp: valid_doc_iff)
  obtain mb where mb: "map_of (snd b) ''date'' = Some (FTimestamp mb)"
    using assms(2) by (auto simp: valid_doc_iff)
  have ra: "\<bar>ma\<bar> \<le> 8640000000000000" and rb: "\<bar>mb\<bar> \<le> 8640000000000000"
    using assms(3,4,5) ma mb by (auto simp: timestamps_in_range_def list_all_iff)
  have "ma \<le> mb" using assms(6) by (auto simp: doc_key_def ma mb)
  then show ?thesis
    using ra rb
    by (simp add: date_le_def to_reminder_def data_field_def ma mb timestamp_toDate_def TimeClip_def)
qed

lemma valid_reminder_has_time:
  assumes "valid_doc a" "timestamps_in_range col" "a \<in> set col"
  shows "getTime (reminder_date (to_reminder a)) \<noteq> None"
proof -
  obtain ma where ma: "map_of (snd a) ''date'' = Some (FTimestamp ma)"
    using assms(1) by (auto simp: valid_doc_iff)
  have ra: "\<bar>ma\<bar> \<le> 8640000000000000"
    using assms(2,3) ma by (auto simp: timestamps_in_range_def list_all_iff)
  then show ?thesis
    by (simp add: to_reminder_def data_field_def ma timestamp_toDate_def TimeClip_def)
qed

lemma query_ascending:
  assumes "timestamps_in_range col"
  shows "ascending_by_date (map to_reminder (filter valid_doc (query_orderBy ''date'' col)))"
proof -
  let ?q = "filter valid_doc (query_orderBy ''date'' col)"
  have s: "sorted_wrt (\<lambda>a b. doc_key ''date'' a \<le> doc_key ''date'' b) ?q"
    using query_sorted by (rule sorted_wrt_filter)
  have m: "\<And>d. d \<in> set ?q \<Longrightarrow> valid_doc d \<and> d \<in> set col"
    by (simp add: set_query_orderBy)
  have "sorted_wrt (\<lambda>a b. date_le (to_reminder a) (to_reminder b)) ?q"
    by (rule sorted_wrt_mono_rel[OF _ s]) (use m assms in \<open>blast intro: date_le_of_keys\<close>)
  then have 1: "sorted_wrt date_le (map to_reminder ?q)" by (simp add: sorted_wrt_map)
  have 2: "list_all (\<lambda>r. getTime (reminder_date r) \<noteq> None) (map to_reminder ?q)"
    using m assms valid_reminder_has_time by (auto simp: list_all_iff)
  show ?thesis unfolding ascending_by_date_def using 1 2 by simp
qed

section \<open>Formatting a date and parsing it back\<close>

lemma same_Day:
  assumes "Day a = Day b"
  shows "YearFromTime a = YearFromTime b" "MonthFromTime a = MonthFromTime b" "DateFromTime a = DateFromTime b"
proof -
  show y: "YearFromTime a = YearFromTime b" using assms by (simp add: YearFromTime_def)
  have l: "InLeapYear a = InLeapYear b" using y by (simp add: InLeapYear_def)
  have w: "DayWithinYear a = DayWithinYear b" using y assms by (simp add: DayWithinYear_def)
  show m: "MonthFromTime a = MonthFromTime b" using l w by (simp add: MonthFromTime_def)
  show "DateFromTime a = DateFromTime b" using l w m by (simp add: DateFromTime_def)
qed

lemma Day_of_day_start: "Day (d * msPerDay) = d"
  by (simp add: Day_def msPerDay_def)

lemma Day_bounds: "Day t * msPerDay \<le> t" "t < Day t * msPerDay + msPerDay"
  using div_bounds[of msPerDay t] by (simp_all add: Day_def msPerDay_def algebra_simps)

lemma DayFromYear_100: "DayFromYear 100 = - 683003"
  by (simp add: DayFromYear_def)

lemma Number_toString_nonneg: "0 \<le> n \<Longrightarrow> Number_toString n = decimal (nat n)"
  by (simp add: Number_toString_def)

lemma format_ymd_parts:
  assumes "0 \<le> getFullYear tza t"
  shows "format_ymd tza t =
           decimal (nat (getFullYear tza t)) @ ''-'' @
           padStart 2 CHR ''0'' (decimal (nat (getMonth tza t + 1))) @ ''-'' @
           padStart 2 CHR ''0'' (decimal (nat (getDate tza t)))"
proof -
  have m: "0 \<le> getMonth tza t + 1" using MonthFromTime_range(1)[of "LocalTime tza t"] by (simp add: getMonth_def)
  have d: "0 \<le> getDate tza t" using DateFromTime_range(1)[of "LocalTime tza t"] by (simp add: getDate_def)
  show ?thesis
    unfolding format_ymd_def Let_def
    by (simp only: Number_toString_nonneg[OF assms] Number_toString_nonneg[OF m] Number_toString_nonneg[OF d])
qed

lemma parse_format_ymd:
  assumes "0 \<le> getFullYear tza t"
  shows "parse_date_string tza (format_ymd tza t) =
           new_Date tza (Some (getFullYear tza t)) (Some (getMonth tza t)) (Some (getDate tza t))"
proof -
  have m: "0 \<le> getMonth tza t + 1" using MonthFromTime_range(1)[of "LocalTime tza t"] by (simp add: getMonth_def)
  have d: "0 \<le> getDate tza t" using DateFromTime_range(1)[of "LocalTime tza t"] by (simp add: getDate_def)
  let ?a = "decimal (nat (getFullYear tza t))"
  let ?b = "padStart 2 CHR ''0'' (decimal (nat (getMonth tza t + 1)))"
  let ?c = "padStart 2 CHR ''0'' (decimal (nat (getDate tza t)))"
  have sp: "split_str CHR ''-'' (format_ymd tza t) = [?a, ?b, ?c]"
    unfolding format_ymd_parts[OF assms]
    by (rule split_three) (simp_all add: decimal_digits padStart_digits)
  have n: "map StringToNumber [?a, ?b, ?c] =
             [JsDec (getFullYear tza t) 0, JsDec (getMonth tza t + 1) 0, JsDec (getDate tza t) 0]"
    using assms m d by (simp add: StringToNumber_decimal StringToNumber_padded)
  show ?thesis
    unfolding parse_date_string_def Let_def sp n by (simp add: nth_num_def)
qed

lemma new_Date_of_fields:
  assumes "\<bar>t\<bar> \<le> 8640000000000000" "\<bar>tza\<bar> < msPerDay" "100 \<le> getFullYear tza t"
  shows "new_Date tza (Some (getFullYear tza t)) (Some (getMonth tza t)) (Some (getDate tza t)) =
           Some (Day (LocalTime tza t) * msPerDay - tza)"
proof -
  let ?lt = "LocalTime tza t"
  have md: "MakeDay (getFullYear tza t) (getMonth tza t) (getDate tza t) = Day ?lt"
    unfolding getFullYear_def getMonth_def getDate_def by (rule MakeDay_fields)
  have lo: "DayFromYear 100 \<le> Day ?lt"
  proof -
    have "DayFromYear 100 \<le> DayFromYear (YearFromDay (Day ?lt))"
      using assms(3) by (intro DayFromYear_mono) (simp add: getFullYear_def YearFromTime_def)
    then show ?thesis using YearFromDay_spec(1)[of "Day ?lt"] by linarith
  qed
  have hi: "Day ?lt * msPerDay \<le> t + tza" using Day_bounds(1)[of ?lt] by (simp add: LocalTime_def)
  have "\<bar>Day ?lt * msPerDay - tza\<bar> \<le> 8640000000000000"
    using lo hi assms(1,2) unfolding DayFromYear_100 msPerDay_def by (simp add: abs_le_iff)
  then have "TimeClip (Day ?lt * msPerDay - tza) = Some (Day ?lt * msPerDay - tza)"
    by (simp add: TimeClip_def)
  then show ?thesis
    using assms(3) by (simp add: new_Date_def md MakeDate_def UTC_def)
qed

lemma fields_of_local_midnight:
  "getFullYear tza (Day (LocalTime tza t) * msPerDay - tza) = getFullYear tza t"
  "getMonth tza (Day (LocalTime tza t) * msPerDay - tza) = getMonth tza t"
  "getDate tza (Day (LocalTime tza t) * msPerDay - tza) = getDate tza t"
proof -
  have "Day (LocalTime tza (Day (LocalTime tza t) * msPerDay - tza)) = Day (LocalTime tza t)"
    by (simp add: LocalTime_def Day_of_day_start)
  then show "getFullYear tza (Day (LocalTime tza t) * msPerDay - tza) = getFullYear tza t"
    "getMonth tza (Day (LocalTime tza t) * msPerDay - tza) = getMonth tza t"
    "getDate tza (Day (LocalTime tza t) * msPerDay - tza) = getDate tza t"
    unfolding getFullYear_def getMonth_def getDate_def by (rule same_Day)+
qed

lemma formatDateForDisplay_Date:
  "formatDateForDisplay tza (JDate (Some t)) = Inr (format_ymd tza t)"
  by (simp add: formatDateForDisplay_def resolve_dateObject_def)

section \<open>The shape of the display string\<close>

lemma length_decimal_1: "n < 10 \<Longrightarrow> length (decimal n) = 1"
  by (simp add: decimal.simps[of n])

lemma length_decimal_2: "10 \<le> n \<Longrightarrow> n < 100 \<Longrightarrow> length (decimal n) = 2"
  by (simp add: decimal.simps[of n] length_decimal_1)

lemma length_decimal_3: "100 \<le> n \<Longrightarrow> n < 1000 \<Longrightarrow> length (decimal n) = 3"
  by (simp add: decimal.simps[of n] length_decimal_2)

lemma length_decimal_4: "1000 \<le> n \<Longrightarrow> n < 10000 \<Longrightarrow> length (decimal n) = 4"
  by (simp add: decimal.simps[of n] length_decimal_3)

lemma length_padded: "n < 100 \<Longrightarrow> length (padStart 2 CHR ''0'' (decimal n)) = 2"
  using length_decimal_1[of n] length_decimal_2[of n]
  by (cases "n < 10") (simp_all add: padStart_def)

lemma dateRegex_test_parts:
  assumes "length a = 4" "length b = 2" "length c = 2"
    and "list_all is_digit a" "list_all is_digit b" "list_all is_digit c"
  shows "dateRegex_test (a @ ''-'' @ b @ ''-'' @ c)"
  using assms by (simp add: dateRegex_test_def nth_append)

lemma format_ymd_two_digit_fields:
  "length (padStart 2 CHR ''0'' (decimal (nat (getMonth tza t + 1)))) = 2"
  "length (padStart 2 CHR ''0'' (decimal (nat (getDate tza t)))) = 2"
proof -
  have "nat (getMonth tza t + 1) < 100"
    using MonthFromTime_range[of "LocalTime tza t"] by (simp add: getMonth_def)
  then show "length (padStart 2 CHR ''0'' (decimal (nat (getMonth tza t + 1)))) = 2"
    by (rule length_padded)
  have "nat (getDate tza t) < 100"
    using DateFromTime_range[of "LocalTime tza t"] by (simp add: getDate_def)
  then show "length (padStart 2 CHR ''0'' (decimal (nat (getDate tza t)))) = 2"
    by (rule length_padded)
qed

lemma format_ymd_matches:
  assumes "1000 \<le> getFullYear tza t" "getFullYear tza t \<le> 9999"
  shows "dateRegex_test (format_ymd tza t)"
proof -
  have y0: "0 \<le> getFullYear tza t" using assms(1) by simp
  have "length (decimal (nat (getFullYear tza t))) = 4"
    using assms by (intro length_decimal_4) simp_all
  then show ?thesis
    unfolding format_ymd_parts[OF y0]
    by (intro dateRegex_test_parts) (simp_all add: format_ymd_two_digit_fields decimal_digits padStart_digits)
qed

lemma format_ymd_nonempty: "format_ymd tza t \<noteq> []"
  by (simp add: format_ymd_def Let_def)

section \<open>Date strings that the form accepts\<close>

lemma digit_val_le: "is_digit c \<Longrightarrow> digit_val c \<le> 9"
  by (auto simp: is_digit_def digit_val_def)

lemma decimal_value_2: "is_digit c0 \<Longrightarrow> is_digit c1 \<Longrightarrow> decimal_value [c0, c1] \<le> 99"
  using digit_val_le[of c0] digit_val_le[of c1] by (simp add: decimal_value_def)

lemma decimal_value_4:
  "is_digit c0 \<Longrightarrow> is_digit c1 \<Longrightarrow> is_digit c2 \<Longrightarrow> is_digit c3 \<Longrightarrow> decimal_value [c0, c1, c2, c3] \<le> 9999"
  using digit_val_le[of c0] digit_val_le[of c1] digit_val_le[of c2] digit_val_le[of c3]
  by (simp add: decimal_value_def)

lemma dateRegex_test_shape:
  assumes "dateRegex_test s"
  shows "\<exists>y1 y2 y3 y4 m1 m2 d1 d2.
           s = [y1, y2, y3, y4] @ ''-'' @ [m1, m2] @ ''-'' @ [d1, d2] \<and>
           is_digit y1 \<and> is_digit y2 \<and> is_digit y3 \<and> is_digit y4 \<and>
           is_digit m1 \<and> is_digit m2 \<and> is_digit d1 \<and> is_digit d2"
proof -
  have "length s = 10" using assms by (simp add: dateRegex_test_def)
  then obtain c0 c1 c2 c3 c4 c5 c6 c7 c8 c9 where s: "s = [c0, c1, c2, c3, c4, c5, c6, c7, c8, c9]"
    by (auto simp: numeral_eq_Suc length_Suc_conv)
  show ?thesis using assms unfolding s by (simp add: dateRegex_test_def)
qed

lemma MonthStart_range: "0 \<le> m \<Longrightarrow> m \<le> 11 \<Longrightarrow> 0 \<le> l \<Longrightarrow> l \<le> 1 \<Longrightarrow> 0 \<le> MonthStart l m \<and> MonthStart l m \<le> 335"
  by (simp add: MonthStart_def)

lemma new_Date_of_form_fields:
  assumes "0 \<le> y" "y \<le> 9999" "- 1 \<le> m" "m \<le> 98" "0 \<le> d" "d \<le> 99" "\<bar>tza\<bar> < msPerDay"
  shows "\<exists>t. new_Date tza (Some y) (Some m) (Some d) = Some t"
proof -
  define yr where "yr = (if 0 \<le> y \<and> y \<le> 99 then 1900 + y else y)"
  define ym where "ym = yr + m div 12"
  have yr: "100 \<le> yr" "yr \<le> 9999" using assms(1,2) by (auto simp: yr_def)
  have md: "- 1 \<le> m div 12" "m div 12 \<le> 8"
    using div_bounds[of 12 m] assms(3,4) by simp_all
  have ym: "99 \<le> ym" "ym \<le> 10007" using yr md by (simp_all add: ym_def)
  have b: "DayFromYear 99 \<le> DayFromYear ym" "DayFromYear ym \<le> DayFromYear 10007"
    using ym by (simp_all add: DayFromYear_mono)
  have n: "DayFromYear 99 = - 683368" "DayFromYear 10007 = 2935454"
    by (simp_all add: DayFromYear_def)
  have ms: "0 \<le> MonthStart (if DaysInYear ym = 366 then 1 else 0) (m mod 12) \<and>
            MonthStart (if DaysInYear ym = 366 then 1 else 0) (m mod 12) \<le> 335"
    by (rule MonthStart_range) simp_all
  have day: "- 683369 \<le> MakeDay yr m d" "MakeDay yr m d \<le> 2935887"
    using b ms assms(5,6) unfolding n MakeDay_def Let_def ym_def[symmetric] by simp_all
  have "\<bar>MakeDay yr m d * msPerDay - tza\<bar> \<le> 8640000000000000"
    using day assms(7) unfolding msPerDay_def by linarith
  then show ?thesis
    by (simp add: new_Date_def yr_def[symmetric] MakeDate_def UTC_def TimeClip_def)
qed

lemma parse_date_string_matching:
  assumes "dateRegex_test s" "\<bar>tza\<bar> < msPerDay"
  shows "\<exists>t. parse_date_string tza s = Some t"
proof -
  obtain y1 y2 y3 y4 m1 m2 d1 d2 where
    s: "s = [y1, y2, y3, y4] @ ''-'' @ [m1, m2] @ ''-'' @ [d1, d2]"
    and dg: "is_digit y1" "is_digit y2" "is_digit y3" "is_digit y4"
            "is_digit m1" "is_digit m2" "is_digit d1" "is_digit d2"
    using dateRegex_test_shape[OF assms(1)] by blast
  have sp: "split_str CHR ''-'' s = [[y1, y2, y3, y4], [m1, m2], [d1, d2]]"
    unfolding s by (rule split_three) (simp_all add: dg)
  have n: "map StringToNumber [[y1, y2, y3, y4], [m1, m2], [d1, d2]] =
             [JsDec (int (decimal_value [y1, y2, y3, y4])) 0, JsDec (int (decimal_value [m1, m2])) 0,
              JsDec (int (decimal_value [d1, d2])) 0]"
    by (simp add: StringToNumber_digits dg)
  have p: "parse_date_string tza s =
             new_Date tza (Some (int (decimal_value [y1, y2, y3, y4])))
               (Some (int (decimal_value [m1, m2]) - 1)) (Some (int (decimal_value [d1, d2])))"
    unfolding parse_date_string_def Let_def sp n by (simp add: nth_num_def)
  show ?thesis
    unfolding p
    using decimal_value_4[OF dg(1,2,3,4)] decimal_value_2[OF dg(5,6)] decimal_value_2[OF dg(7,8)] assms(2)
    by (intro new_Date_of_form_fields) simp_all
qed

section \<open>The claims\<close>

text \<open>
  C1: the round trip from a valid native date through formatDateForDisplay and the
  submit handler's parse does not keep the calendar day for a date in a year below 100.
  The year is printed without padding, against the \<open>YYYY-MM-DD\<close> that the function
  documents, and \<open>new Date(year, month - 1, day)\<close> reads a year from 0 to 99 as
  1900 + year, against the handler's "Convert 'YYYY-MM-DD' string back to a Date".
  With local time UTC, 1 January of the year 50 is displayed as \<open>50-01-01\<close> and parsed
  back as 1 January 1950; the form itself accepts \<open>0050-01-01\<close> and hands 1 January
  1950 to storage.
\<close>

theorem round_trip_year_50:
  "getFullYear 0 (- 60589296000000) = 50 \<and>
   formatDateForDisplay 0 (JDate (Some (- 60589296000000))) = Inr ''50-01-01'' \<and>
   handleFormSubmit 0 (Some ''u1'') (''Buy flowers'', ''50-01-01'') =
     Inr (''Buy flowers'', JDate (Some (- 631152000000))) \<and>
   getFullYear 0 (- 631152000000) = 1950 \<and>
   submit_form 0 (Some ''u1'') ''Buy flowers'' ''0050-01-01'' =
     Inr (''Buy flowers'', JDate (Some (- 631152000000)))"
  by code_simp

text \<open>
  Where the round trip does hold: for every valid native date whose local year is at
  least 100, the string that formatDateForDisplay returns is parsed by the submit
  handler into a valid Date with the same local year, month and day of the month.
  (Local time is UTC plus a fixed offset of less than a day; the handler runs for a
  signed-in user and a non-empty text.)
\<close>

lemma display_string_round_trip:
  assumes "\<bar>t\<bar> \<le> 8640000000000000" and "\<bar>tza\<bar> < msPerDay" and "100 \<le> getFullYear tza t"
    and "u \<noteq> []" and "txt \<noteq> []"
  shows "\<exists>s t'. formatDateForDisplay tza (JDate (Some t)) = Inr s \<and>
                handleFormSubmit tza (Some u) (txt, s) = Inr (txt, JDate (Some t')) \<and>
                \<bar>t'\<bar> \<le> 8640000000000000 \<and>
                getFullYear tza t' = getFullYear tza t \<and>
                getMonth tza t' = getMonth tza t \<and>
                getDate tza t' = getDate tza t"
proof -
  let ?s = "format_ymd tza t"
  let ?t' = "Day (LocalTime tza t) * msPerDay - tza"
  have y0: "0 \<le> getFullYear tza t" using assms(3) by simp
  have p: "parse_date_string tza ?s = Some ?t'"
    using parse_format_ymd[OF y0] new_Date_of_fields[OF assms(1,2,3)] by simp
  have ne: "?s \<noteq> []" unfolding format_ymd_parts[OF y0] by simp
  have h: "handleFormSubmit tza (Some u) (txt, ?s) = Inr (txt, JDate (Some ?t'))"
    using assms(4,5) ne by (simp add: handleFormSubmit_def p)
  have r: "\<bar>?t'\<bar> \<le> 8640000000000000"
    using p parse_format_ymd[OF y0] new_Date_of_fields[OF assms(1,2,3)]
    by (auto simp: new_Date_def TimeClip_def Let_def split: if_splits)
  show ?thesis
    using formatDateForDisplay_Date[of tza t] h r fields_of_local_midnight[of tza t] by blast
qed

text \<open>
  C2: formatDateForDisplay does not return the zero-padded YYYY-MM-DD string for every
  valid date, and it can raise. Month and day are padded, the year is not: with local
  time UTC, 1 January 999 gives \<open>999-01-01\<close>, which the form's own pattern for
  YYYY-MM-DD refuses. And two statements stand outside the \<open>try\<close> blocks: the read of
  \<open>dateInput.toDate\<close> raises what an accessor throws, and \<open>dateObject.getTime()\<close>
  raises a TypeError on a Date whose \<open>getTime\<close> is not a function, be it the input
  itself or what \<open>toDate()\<close> returned.
\<close>

theorem formatDateForDisplay_failing_inputs:
  "formatDateForDisplay 0 (JDate (Some (- 30641760000000))) = Inr ''999-01-01'' \<and>
   \<not> dateRegex_test ''999-01-01'' \<and>
   formatDateForDisplay 0 (JToDateGetter Throws) = Inl (OtherError ''thrown by the getter'') \<and>
   formatDateForDisplay 0 (JDatePatched (Some 0)) = Inl (TypeError ''getTime is not a function'') \<and>
   formatDateForDisplay 0 (JObj [(''toDate'', JFun (Returns (JDatePatched (Some 0))))]) =
     Inl (TypeError ''getTime is not a function'')"
  by code_simp

text \<open>
  Where the function does what it documents: on absent input, on a native Date and on
  a Timestamp it never raises, and for a valid Date whose local year is from 1000 to
  9999 the result is a zero-padded YYYY-MM-DD string.
\<close>

lemma formatDateForDisplay_documented_inputs:
  "formatDateForDisplay tza JNull = Inr []"
  "formatDateForDisplay tza JUndefined = Inr []"
  "formatDateForDisplay tza (JDate None) = Inr []"
  "formatDateForDisplay tza (JDate (Some t)) = Inr (format_ymd tza t)"
  "formatDateForDisplay tza (JTimestamp ms) =
     Inr (case TimeClip ms of None \<Rightarrow> [] | Some t \<Rightarrow> format_ymd tza t)"
  by (simp_all add: formatDateForDisplay_def resolve_dateObject_def split: option.splits)

lemma formatDateForDisplay_four_digit_year:
  assumes "1000 \<le> getFullYear tza t" "getFullYear tza t \<le> 9999"
  shows "\<exists>s. formatDateForDisplay tza (JDate (Some t)) = Inr s \<and> dateRegex_test s"
  using format_ymd_matches[OF assms] by (simp add: formatDateForDisplay_Date)

text \<open>
  C3, as stated, fails in its second part: a calendar-invalid date that matches the
  pattern is not rejected. With local time UTC, for a signed-in user, the form and the
  submit handler accept \<open>2025-02-30\<close> and pass 2 March 2025 to storage, and accept
  \<open>2025-13-01\<close> and pass 1 January 2026.
\<close>

theorem submit_form_calendar_invalid_counterexample:
  "submit_form 0 (Some ''u1'') ''Buy flowers'' ''2025-02-30'' =
     Inr (''Buy flowers'', JDate (Some 1740873600000)) \<and>
   formatDateForDisplay 0 (JDate (Some 1740873600000)) = Inr ''2025-03-02'' \<and>
   submit_form 0 (Some ''u1'') ''Buy flowers'' ''2025-13-01'' =
     Inr (''Buy flowers'', JDate (Some 1767225600000)) \<and>
   formatDateForDisplay 0 (JDate (Some 1767225600000)) = Inr ''2026-01-01''"
  by code_simp

text \<open>
  C3, amended: the path from the form to storage rejects every date string that does not
  match the exact pattern of four digits, a dash, two digits, a dash, two digits. It
  rejects no string that matches the pattern: with a text that is not blank and a
  signed-in user, every matching string is accepted and becomes a valid Date, the month
  and the day being carried over by \<open>new Date(year, month - 1, day)\<close> when they are out
  of range. (Local time is UTC plus a fixed offset of less than a day.)
\<close>

theorem submit_form_date_pattern:
  "(\<not> dateRegex_test date \<longrightarrow> submit_form tza uid text date = Inl ''rejected by the form'') \<and>
   (dateRegex_test date \<and> trim text \<noteq> [] \<and> u \<noteq> [] \<and> \<bar>tza\<bar> < msPerDay \<longrightarrow>
      (\<exists>t. submit_form tza (Some u) text date = Inr (trim text, JDate (Some t))))"
proof (intro conjI impI)
  assume "\<not> dateRegex_test date"
  then show "submit_form tza uid text date = Inl ''rejected by the form''"
    by (simp add: submit_form_def handleSubmit_def validate_def)
next
  assume h: "dateRegex_test date \<and> trim text \<noteq> [] \<and> u \<noteq> [] \<and> \<bar>tza\<bar> < msPerDay"
  then have ne: "date \<noteq> []" by (auto simp: dateRegex_test_def)
  obtain t where t: "parse_date_string tza date = Some t"
    using parse_date_string_matching[of date tza] h by blast
  have "submit_form tza (Some u) text date = Inr (trim text, JDate (Some t))"
    using h ne t by (simp add: submit_form_def handleSubmit_def validate_def handleFormSubmit_def)
  then show "\<exists>t. submit_form tza (Some u) text date = Inr (trim text, JDate (Some t))" ..
qed

theorem submit_form_date_pattern_witness:
  "submit_form 0 (Some ''u1'') ''Buy flowers'' ''2025-2-30'' = Inl ''rejected by the form'' \<and>
   (\<exists>t. submit_form 0 (Some ''u1'') '' Buy flowers '' ''2025-06-01'' = Inr (''Buy flowers'', JDate (Some t)))"
proof -
  have a: "\<not> dateRegex_test ''2025-2-30''" by code_simp
  have b: "dateRegex_test ''2025-06-01''" by code_simp
  have c: "trim '' Buy flowers '' = ''Buy flowers''" by code_simp
  have d: "\<bar>0\<bar> < msPerDay" by (simp add: msPerDay_def)
  have 1: "submit_form 0 (Some ''u1'') ''Buy flowers'' ''2025-2-30'' = Inl ''rejected by the form''"
    using submit_form_date_pattern[of "''2025-2-30''" 0 "Some ''u1''" "''Buy flowers''"] a by simp
  have 2: "\<exists>t. submit_form 0 (Some ''u1'') '' Buy flowers '' ''2025-06-01'' = Inr (''Buy flowers'', JDate (Some t))"
    using submit_form_date_pattern[of "''2025-06-01''" 0 _ "'' Buy flowers ''" "''u1''"] b c d by simp
  show ?thesis using 1 2 by simp
qed

text \<open>
  C4, as stated, fails: a stored record whose text is malformed but truthy is not skipped.
  In \<open>corrupt_db\<close> the record r2 has the number 42 as text; getReminders returns it.
\<close>

theorem getReminders_malformed_text_counterexample:
  "fst (getReminders (JStr ''u1'') corrupt_db) =
     Inr [\<lparr>reminder_id = ''r2'', reminder_text = JNum (Some 42), reminder_date = JDate (Some 1735689600000)\<rparr>,
          \<lparr>reminder_id = ''r1'', reminder_text = JStr ''Buy flowers'', reminder_date = JDate (Some 1748736000000)\<rparr>]"
  by code_simp

text \<open>
  C4, amended: for every owner that passes the check and every state of the store,
  getReminders raises nothing, leaves the documents as they are, and returns exactly the
  records of the owner whose text field is present and truthy (not null, false, NaN, 0 or
  the empty string) and whose date field is a timestamp, each converted by
  \<open>to_reminder\<close>; every other record is skipped and prevents nothing.
\<close>

theorem getReminders_skips_invalid:
  assumes "trim uid \<noteq> []"
  shows "\<exists>ds. getReminders (JStr uid) db =
                (Inr (map to_reminder ds), db\<lparr>io_log := io_log db @ [IoGetDocs uid]\<rparr>) \<and>
              (\<forall>d. d \<in> set ds \<longleftrightarrow>
                 d \<in> set (collection db uid) \<and>
                 (\<exists>v. map_of (snd d) ''text'' = Some v \<and> v \<noteq> FNull \<and> v \<noteq> FBool False \<and>
                      v \<noteq> FNum None \<and> v \<noteq> FNum (Some 0) \<and> v \<noteq> FString []) \<and>
                 (\<exists>ms. map_of (snd d) ''date'' = Some (FTimestamp ms)))"
proof -
  let ?ds = "filter valid_doc (query_orderBy ''date'' (collection db uid))"
  have "\<forall>d. d \<in> set ?ds \<longleftrightarrow> d \<in> set (collection db uid) \<and> valid_doc d"
    using valid_docs_of_query[of "collection db uid"] by blast
  then have "\<forall>d. d \<in> set ?ds \<longleftrightarrow>
                 d \<in> set (collection db uid) \<and>
                 (\<exists>v. map_of (snd d) ''text'' = Some v \<and> v \<noteq> FNull \<and> v \<noteq> FBool False \<and>
                      v \<noteq> FNum None \<and> v \<noteq> FNum (Some 0) \<and> v \<noteq> FString []) \<and>
                 (\<exists>ms. map_of (snd d) ''date'' = Some (FTimestamp ms))"
    by (simp add: valid_doc_iff)
  then show ?thesis using getReminders_valid_owner[OF assms, of db] by blast
qed

theorem getReminders_skips_invalid_witness:
  "trim ''u1'' \<noteq> [] \<and>
   (\<exists>ds. getReminders (JStr ''u1'') corrupt_db =
            (Inr (map to_reminder ds), corrupt_db\<lparr>io_log := io_log corrupt_db @ [IoGetDocs ''u1'']\<rparr>) \<and>
          (\<forall>d. d \<in> set ds \<longleftrightarrow>
             d \<in> set (collection corrupt_db ''u1'') \<and>
             (\<exists>v. map_of (snd d) ''text'' = Some v \<and> v \<noteq> FNull \<and> v \<noteq> FBool False \<and>
                  v \<noteq> FNum None \<and> v \<noteq> FNum (Some 0) \<and> v \<noteq> FString []) \<and>
             (\<exists>ms. map_of (snd d) ''date'' = Some (FTimestamp ms))))"
proof -
  have h: "trim ''u1'' \<noteq> []" by (simp add: trim_def is_space_def)
  show ?thesis using h getReminders_skips_invalid[OF h, of corrupt_db] by simp
qed

text \<open>
  C5, as stated, fails for an owner whose identifier is blank: the check of the owner
  trims before it tests, so for the reminder that \<open>blank_owner_db\<close> holds under the
  owner of two spaces the update is refused with a TypeError and the stored text stays.
\<close>

theorem updateReminder_blank_owner_counterexample:
  "stored_field blank_owner_db ''  '' ''r1'' ''text'' = Some (FString ''Buy flowers'') \<and>
   updateReminder (JStr ''  '') (JStr ''r1'') (JObj [(''text'', JStr ''Buy flowers + card'')]) blank_owner_db =
     (Inl (TypeError ''userId must be a non-empty string.''), blank_owner_db)"
  by (simp add: stored_field_def blank_owner_db_def empty_db_def updateReminder_def
      validateNonEmptyString_def trim_def is_space_def)

text \<open>
  C5, amended: for an owner and an id that are strings not empty after trimming, a
  reminder stored under them, and a patch that is a plain object with a valid text and
  no date (and no property of its own named \<open>hasOwnProperty\<close>, as for a patch
  containing only the text field), updateReminder succeeds, stores the new text and
  leaves the stored date and every other field of the reminder, and every other
  reminder, as they were. And for every patch and every outcome: a field that is not a
  key of the patch has the same stored value afterwards.
\<close>

theorem updateReminder_frame:
  "(trim uid \<noteq> [] \<and> trim rid \<noteq> [] \<and> map_of (collection db uid) rid = Some data \<and>
    map_of ps ''text'' = Some (JStr s) \<and> trim s \<noteq> [] \<and> ''date'' \<notin> fst ` set ps \<and>
    ''hasOwnProperty'' \<notin> fst ` set ps \<longrightarrow>
      fst (updateReminder (JStr uid) (JStr rid) (JObj ps) db) = Inr () \<and>
      stored_field (snd (updateReminder (JStr uid) (JStr rid) (JObj ps) db)) uid rid ''text'' = Some (FString s) \<and>
      stored_field (snd (updateReminder (JStr uid) (JStr rid) (JObj ps) db)) uid rid ''date'' = map_of data ''date'' \<and>
      (\<forall>u r name. (u, r, name) \<noteq> (uid, rid, ''text'') \<longrightarrow>
         stored_field (snd (updateReminder (JStr uid) (JStr rid) (JObj ps) db)) u r name = stored_field db u r name)) \<and>
   (name \<notin> set (own_keys updatedData) \<longrightarrow>
      stored_field (snd (updateReminder userId reminderId updatedData db)) u r name = stored_field db u r name)"
proof (intro conjI impI)
  assume h: "trim uid \<noteq> [] \<and> trim rid \<noteq> [] \<and> map_of (collection db uid) rid = Some data \<and>
    map_of ps ''text'' = Some (JStr s) \<and> trim s \<noteq> [] \<and> ''date'' \<notin> fst ` set ps \<and>
    ''hasOwnProperty'' \<notin> fst ` set ps"
  have f: "updateReminder_fields (JObj ps) = Inr [(''text'', FString s)]"
    using h by (simp add: updateReminder_fields_text_only)
  have ex: "rid \<in> fst ` set (collection db uid)" using h map_of_in_keys by fast
  have u: "updateReminder (JStr uid) (JStr rid) (JObj ps) db = updateDoc uid rid [(''text'', FString s)] db"
    using h by (simp add: updateReminder_def validateNonEmptyString_def f)
  show "fst (updateReminder (JStr uid) (JStr rid) (JObj ps) db) = Inr ()"
    unfolding u using ex by (simp add: updateDoc_def)
  show "stored_field (snd (updateReminder (JStr uid) (JStr rid) (JObj ps) db)) uid rid ''text'' = Some (FString s)"
    unfolding u using ex h by (simp add: stored_field_updateDoc map_of_set_field)
  show "stored_field (snd (updateReminder (JStr uid) (JStr rid) (JObj ps) db)) uid rid ''date'' = map_of data ''date''"
    unfolding u using ex h by (simp add: stored_field_updateDoc map_of_set_field)
  show "\<forall>u r name. (u, r, name) \<noteq> (uid, rid, ''text'') \<longrightarrow>
         stored_field (snd (updateReminder (JStr uid) (JStr rid) (JObj ps) db)) u r name = stored_field db u r name"
    unfolding u
  proof (intro allI impI)
    fix u r name assume ne: "(u, r, name) \<noteq> (uid, rid, ''text'')"
    show "stored_field (snd (updateDoc uid rid [(''text'', FString s)] db)) u r name = stored_field db u r name"
    proof (cases "u = uid \<and> r = rid")
      case True
      then have "name \<noteq> ''text''" using ne by simp
      then have "name \<notin> fst ` set [(''text'', FString s)]" by simp
      then show ?thesis by (rule stored_field_updateDoc_frame)
    next
      case False
      then show ?thesis by (auto simp: stored_field_updateDoc)
    qed
  qed
next
  assume n: "name \<notin> set (own_keys updatedData)"
  show "stored_field (snd (updateReminder userId reminderId updatedData db)) u r name = stored_field db u r name"
  proof (cases "updateReminder_fields updatedData")
    case (Inl e)
    then show ?thesis by (simp add: updateReminder_def split: sum.splits)
  next
    case (Inr changes)
    have "name \<notin> fst ` set changes"
      using updateReminder_fields_shape[OF Inr] n by auto
    then show ?thesis
      using Inr by (simp add: updateReminder_def stored_field_updateDoc_frame split: sum.splits)
  qed
qed

theorem updateReminder_frame_witness:
  "fst (updateReminder (JStr ''u1'') (JStr ''r1'') (JObj [(''text'', JStr ''Buy flowers + card'')]) flowers_db) = Inr () \<and>
   stored_field (snd (updateReminder (JStr ''u1'') (JStr ''r1'') (JObj [(''text'', JStr ''Buy flowers + card'')]) flowers_db))
     ''u1'' ''r1'' ''text'' = Some (FString ''Buy flowers + card'') \<and>
   stored_field (snd (updateReminder (JStr ''u1'') (JStr ''r1'') (JObj [(''text'', JStr ''Buy flowers + card'')]) flowers_db))
     ''u1'' ''r1'' ''date'' = Some (FTimestamp 1748736000000) \<and>
   stored_field (snd (updateReminder (JStr ''u1'') (JStr ''r1'') (JObj [(''date'', JDate (Some 0))]) flowers_db))
     ''u1'' ''r1'' ''text'' = Some (FString ''Buy flowers'')"
proof -
  have t: "trim ''u1'' \<noteq> []" "trim ''r1'' \<noteq> []" "trim ''Buy flowers + card'' \<noteq> []"
    by (simp_all add: trim_def is_space_def)
  have d: "map_of (collection flowers_db ''u1'') ''r1'' =
             Some [(''text'', FString ''Buy flowers''), (''date'', FTimestamp 1748736000000)]"
    by (simp add: flowers_db_def empty_db_def)
  have s: "stored_field flowers_db ''u1'' ''r1'' ''text'' = Some (FString ''Buy flowers'')"
    by (simp add: stored_field_def d)
  show ?thesis
    using updateReminder_frame
      [where uid = "''u1''" and rid = "''r1''" and db = flowers_db
         and data = "[(''text'', FString ''Buy flowers''), (''date'', FTimestamp 1748736000000)]"
         and ps = "[(''text'', JStr ''Buy flowers + card'')]" and s = "''Buy flowers + card''"
         and name = "''text''" and updatedData = "JObj [(''date'', JDate (Some 0))]"
         and userId = "JStr ''u1''" and reminderId = "JStr ''r1''" and u = "''u1''" and r = "''r1''"]
      t d s
    by simp
qed




text \<open>
  C7: addReminder with a text that is not a string or is blank after trimming, or with a
  date that is not a valid Date, fails with a TypeError and returns the store as it was
  (nothing written, no call of the SDK), for every owner. And the stored-text invariant:
  from a store where every reminder has a non-blank string as text, any sequence of
  requests to the four operations leads to such a store again.
\<close>

theorem addReminder_rejects_blank_text_or_invalid_date:
  "(((\<forall>s. get_prop reminderData ''text'' = Inr (JStr s) \<longrightarrow> trim s = []) \<or>
     (\<forall>t. get_prop reminderData ''date'' \<noteq> Inr (JDate (Some t)))) \<longrightarrow>
      is_TypeError (fst (addReminder userId reminderData newId db)) \<and>
      snd (addReminder userId reminderData newId db) = db) \<and>
   (stored_text_ok db \<longrightarrow> stored_text_ok (run reqs db))"
proof (intro conjI impI)
  assume h: "(\<forall>s. get_prop reminderData ''text'' = Inr (JStr s) \<longrightarrow> trim s = []) \<or>
     (\<forall>t. get_prop reminderData ''date'' \<noteq> Inr (JDate (Some t)))"
  have "is_TypeError (addReminder_payload userId reminderData)"
    using h by (rule addReminder_payload_error_blank)
  then obtain m where m: "addReminder_payload userId reminderData = Inl (TypeError m)"
    by (cases "addReminder_payload userId reminderData" rule: is_TypeError.cases) auto
  show "is_TypeError (fst (addReminder userId reminderData newId db))"
    by (simp add: addReminder_def m)
  show "snd (addReminder userId reminderData newId db) = db"
    by (simp add: addReminder_def m)
next
  assume "stored_text_ok db"
  then show "stored_text_ok (run reqs db)" by (rule stored_text_ok_run)
qed

theorem addReminder_rejects_blank_text_or_invalid_date_witness:
  "is_TypeError (fst (addReminder (JStr ''u1'')
      (JObj [(''text'', JStr ''   ''), (''date'', JDate (Some 1735689600000))]) ''r1'' empty_db)) \<and>
   snd (addReminder (JStr ''u1'')
      (JObj [(''text'', JStr ''   ''), (''date'', JDate (Some 1735689600000))]) ''r1'' empty_db) = empty_db \<and>
   stored_text_ok (run
      [Create (JStr ''u1'') (JObj [(''text'', JStr ''Buy flowers''), (''date'', JDate (Some 1735689600000))]) ''r1'',
       Update (JStr ''u1'') (JStr ''r1'') (JObj [(''text'', JStr ''   '')])] empty_db)"
  using addReminder_rejects_blank_text_or_invalid_date
    [of "JObj [(''text'', JStr ''   ''), (''date'', JDate (Some 1735689600000))]" "JStr ''u1''" "''r1''" empty_db
       "[Create (JStr ''u1'') (JObj [(''text'', JStr ''Buy flowers''), (''date'', JDate (Some 1735689600000))]) ''r1'',
         Update (JStr ''u1'') (JStr ''r1'') (JObj [(''text'', JStr ''   '')])]"]
    stored_text_ok_empty
  by (simp add: trim_def is_space_def)

text \<open>
  C8: when the owner argument is not a string, or is a string that is empty (or blank),
  each of addReminder, getReminders, updateReminder and deleteReminder fails with the
  TypeError of \<open>validateNonEmptyString\<close> and returns the store as it was: no document is
  changed and no call of the SDK is logged.
\<close>

theorem owner_precondition:
  assumes "\<And>s. userId = JStr s \<Longrightarrow> trim s = []"
  shows "addReminder userId reminderData newId db = (Inl (TypeError ''userId must be a non-empty string.''), db) \<and>
         getReminders userId db = (Inl (TypeError ''userId must be a non-empty string.''), db) \<and>
         updateReminder userId reminderId updatedData db = (Inl (TypeError ''userId must be a non-empty string.''), db) \<and>
         deleteReminder userId reminderId db = (Inl (TypeError ''userId must be a non-empty string.''), db)"
proof -
  have v: "validateNonEmptyString userId ''userId'' = Inl (TypeError ''userId must be a non-empty string.'')"
    using validateNonEmptyString_fail[of userId "''userId''"] assms by simp
  show ?thesis
    by (simp add: addReminder_def addReminder_payload_def getReminders_def updateReminder_def
        deleteReminder_def v)
qed

theorem owner_precondition_witness:
  "addReminder (JStr []) (JObj [(''text'', JStr ''Buy flowers''), (''date'', JDate (Some 0))]) ''r1'' empty_db
     = (Inl (TypeError ''userId must be a non-empty string.''), empty_db) \<and>
   getReminders (JStr []) empty_db = (Inl (TypeError ''userId must be a non-empty string.''), empty_db) \<and>
   updateReminder (JStr []) (JStr ''r1'') (JObj [(''text'', JStr ''x'')]) empty_db
     = (Inl (TypeError ''userId must be a non-empty string.''), empty_db) \<and>
   deleteReminder (JStr []) (JStr ''r1'') empty_db = (Inl (TypeError ''userId must be a non-empty string.''), empty_db)"
  using owner_precondition[of "JStr []" "JObj [(''text'', JStr ''Buy flowers''), (''date'', JDate (Some 0))]"
      "''r1''" empty_db "JStr ''r1''" "JObj [(''text'', JStr ''x'')]"]
  by (simp add: trim_Nil)

text \<open>
  C9, as stated, fails: an owner whose identifier is a non-empty string of white space is
  refused; getReminders raises a TypeError instead of returning a list.
\<close>

theorem getReminders_blank_owner_counterexample:
  "fst (getReminders (JStr ''  '') (run january_requests empty_db)) =
     Inl (TypeError ''userId must be a non-empty string.'')"
  by (simp add: getReminders_def validateNonEmptyString_def trim_def is_space_def)

text \<open>
  C9, amended: for every owner whose identifier is a string that is not empty after
  trimming, getReminders returns the valid records of that owner's collection, all of
  them and no others, ordered ascending by date. (The stored timestamps are taken to lie
  within the range of a Date, as every Firestore timestamp does.)
\<close>

theorem getReminders_ascending:
  assumes "trim uid \<noteq> []" and "timestamps_in_range (collection db uid)"
  shows "\<exists>ds. fst (getReminders (JStr uid) db) = Inr (map to_reminder ds) \<and>
              set ds = {d \<in> set (collection db uid). valid_doc d} \<and>
              length ds = length (filter valid_doc (collection db uid)) \<and>
              ascending_by_date (map to_reminder ds)"
proof -
  let ?ds = "filter valid_doc (query_orderBy ''date'' (collection db uid))"
  have "fst (getReminders (JStr uid) db) = Inr (map to_reminder ?ds)"
    by (simp add: getReminders_valid_owner[OF assms(1)])
  moreover have "set ?ds = {d \<in> set (collection db uid). valid_doc d}"
    by (rule valid_docs_of_query)
  moreover have "length ?ds = length (filter valid_doc (collection db uid))"
    by (rule length_valid_docs_of_query)
  moreover have "ascending_by_date (map to_reminder ?ds)"
    using assms(2) by (rule query_ascending)
  ultimately show ?thesis by blast
qed

lemma january_list:
  "fst (getReminders (JStr ''u1'') (run january_requests empty_db)) =
     Inr [\<lparr>reminder_id = ''b'', reminder_text = JStr ''first'', reminder_date = JDate (Some 1735689600000)\<rparr>,
          \<lparr>reminder_id = ''c'', reminder_text = JStr ''second'', reminder_date = JDate (Some 1735776000000)\<rparr>,
          \<lparr>reminder_id = ''a'', reminder_text = JStr ''third'', reminder_date = JDate (Some 1735862400000)\<rparr>]"
  by code_simp

theorem getReminders_ascending_witness:
  "trim ''u1'' \<noteq> [] \<and> timestamps_in_range (collection (run january_requests empty_db) ''u1'') \<and>
   (\<exists>ds. fst (getReminders (JStr ''u1'') (run january_requests empty_db)) = Inr (map to_reminder ds) \<and>
         set ds = {d \<in> set (collection (run january_requests empty_db) ''u1''). valid_doc d} \<and>
         length ds = length (filter valid_doc (collection (run january_requests empty_db) ''u1'')) \<and>
         ascending_by_date (map to_reminder ds)) \<and>
   fst (getReminders (JStr ''u1'') (run january_requests empty_db)) =
     Inr [\<lparr>reminder_id = ''b'', reminder_text = JStr ''first'', reminder_date = JDate (Some 1735689600000)\<rparr>,
          \<lparr>reminder_id = ''c'', reminder_text = JStr ''second'', reminder_date = JDate (Some 1735776000000)\<rparr>,
          \<lparr>reminder_id = ''a'', reminder_text = JStr ''third'', reminder_date = JDate (Some 1735862400000)\<rparr>]"
proof -
  have h1: "trim ''u1'' \<noteq> []" by (simp add: trim_def is_space_def)
  have h2: "timestamps_in_range (collection (run january_requests empty_db) ''u1'')" by code_simp
  show ?thesis using h1 h2 getReminders_ascending[OF h1 h2] january_list by simp
qed

section \<open>The authentication messages\<close>

text \<open>
  C10: for the provider error codes invalid-credential, user-not-found and wrong-password
  the mapping returns one and the same message, whatever else the error objects carry.
\<close>

theorem mapAuthErrorToMessage_credentials:
  assumes "map_of ps ''code'' = Some (JStr c)"
    and "c = ''auth/invalid-credential'' \<or> c = ''auth/user-not-found'' \<or> c = ''auth/wrong-password''"
    and "map_of ps' ''code'' = Some (JStr c')"
    and "c' = ''auth/invalid-credential'' \<or> c' = ''auth/user-not-found'' \<or> c' = ''auth/wrong-password''"
  shows "mapAuthErrorToMessage (JObj ps) = mapAuthErrorToMessage (JObj ps') \<and>
         mapAuthErrorToMessage (JObj ps) =
           ''Invalid email or password. Please check your credentials and try again.''"
proof -
  have k: "''code'' \<in> set (own_keys (JObj ps))" "''code'' \<in> set (own_keys (JObj ps'))"
    using own_key_of_map_of[OF assms(1)] own_key_of_map_of[OF assms(3)] by simp_all
  have "mapAuthErrorToMessage (JObj ps) =
          ''Invalid email or password. Please check your credentials and try again.''"
    unfolding mapAuthErrorToMessage_def using k(1) assms(1,2) by auto
  moreover have "mapAuthErrorToMessage (JObj ps') =
          ''Invalid email or password. Please check your credentials and try again.''"
    unfolding mapAuthErrorToMessage_def using k(2) assms(3,4) by auto
  ultimately show ?thesis by simp
qed

theorem mapAuthErrorToMessage_credentials_witness:
  "mapAuthErrorToMessage (JObj [(''code'', JStr ''auth/user-not-found''), (''message'', JStr ''no user'')]) =
   mapAuthErrorToMessage (JObj [(''code'', JStr ''auth/wrong-password'')]) \<and>
   mapAuthErrorToMessage (JObj [(''code'', JStr ''auth/user-not-found''), (''message'', JStr ''no user'')]) =
     ''Invalid email or password. Please check your credentials and try again.''"
  by (rule mapAuthErrorToMessage_credentials
        [of _ "''auth/user-not-found''" _ "''auth/wrong-password''"]) simp_all

end
